theory Spec2Isabelle
  imports Complex_Main "HOL-Library.Word" "HOL-Library.AList"
begin

section \<open>Ultrasonic multipath flow meter: the core of flowmeter.c\<close>

text \<open>
  The development embeds the four functions of \<^verbatim>\<open>flowmeter.c\<close>:
  \<^verbatim>\<open>calculate_path_velocity\<close>, \<^verbatim>\<open>calculate_flow_rate\<close>, \<^verbatim>\<open>flowmeter_process\<close> and
  \<^verbatim>\<open>flowmeter_result_free\<close>, over the structures of \<^verbatim>\<open>flowmeter.h\<close>.
\<close>

subsection \<open>The arithmetic of \<^verbatim>\<open>double\<close>\<close>

text \<open>
  The program computes on C \<^verbatim>\<open>double\<close> values. The embedding takes the type of these
  values and the operations the source applies to them as a parameter: a record with
  the literals \<^verbatim>\<open>0.0\<close> and \<^verbatim>\<open>2.0\<close>, the constant \<^verbatim>\<open>M_PI\<close> of \<^verbatim>\<open>math.h\<close>, the four
  arithmetic operators, \<^verbatim>\<open>sin\<close>, and the comparisons \<^verbatim>\<open><=\<close> and \<^verbatim>\<open>==\<close>. A theorem
  stated for every such record holds for the arithmetic of the machine, whatever its
  rounding and its special values are.
\<close>

record 'd arith =
  d_zero :: 'd
  d_two :: 'd
  d_pi :: 'd
  d_add :: "'d \<Rightarrow> 'd \<Rightarrow> 'd"
  d_sub :: "'d \<Rightarrow> 'd \<Rightarrow> 'd"
  d_mul :: "'d \<Rightarrow> 'd \<Rightarrow> 'd"
  d_div :: "'d \<Rightarrow> 'd \<Rightarrow> 'd"
  d_sin :: "'d \<Rightarrow> 'd"
  d_le :: "'d \<Rightarrow> 'd \<Rightarrow> bool"
  d_eq :: "'d \<Rightarrow> 'd \<Rightarrow> bool"

text \<open>
  Exact arithmetic: every \<^verbatim>\<open>double\<close> is the real number it stands for and no operation
  rounds. This is the reading under which the formulas of the method are stated.
\<close>

definition real_arith :: "real arith" where
  "real_arith = \<lparr> d_zero = 0, d_two = 2, d_pi = pi,
     d_add = (+), d_sub = (-), d_mul = (*), d_div = (/),
     d_sin = sin, d_le = (\<le>), d_eq = (=) \<rparr>"

text \<open>
  Binary64 arithmetic after IEEE 754, as C gives it to \<^verbatim>\<open>double\<close> where every operation
  is evaluated in binary64 and on its own (\<^verbatim>\<open>FLT_EVAL_METHOD\<close> 0, no contraction of a product
  and a sum into one operation): every operation returns its exact result rounded once,
  to nearest with ties to even.
  \<open>round_half_even\<close> rounds to an integer; \<open>round_binary64\<close> rounds a real number to 53
  significant bits, whatever its exponent: it scales the number so that its integer part
  has 53 bits, rounds, and scales back.
\<close>

definition round_half_even :: "real \<Rightarrow> int" where
  "round_half_even y =
     (let f = \<lfloor>y\<rfloor>;
          d = y - of_int f
      in if d < 1 / 2 then f
         else if 1 / 2 < d then f + 1
         else if even f then f else f + 1)"

definition round_binary64 :: "real \<Rightarrow> real" where
  "round_binary64 x =
     (if x = 0 then 0
      else
        let e = \<lfloor>log 2 \<bar>x\<bar>\<rfloor> - 52
        in of_int (round_half_even (x / 2 powi e)) * 2 powi e)"

text \<open>
  A \<^verbatim>\<open>double\<close> is a NaN, an infinity with its sign, or a finite number given by its sign
  bit (\<open>True\<close> for minus) and its magnitude; the two zeros are \<open>Finite False 0\<close> and
  \<open>Finite True 0\<close>. One \<open>NaN\<close> stands for all NaNs.
\<close>

datatype double = NaN | Infinity bool | Finite bool real

definition with_sign :: "bool \<Rightarrow> real \<Rightarrow> real" where
  "with_sign s m = (if s then - m else m)"

text \<open>
  The exponent range of binary64: a magnitude below \<open>2^-1022\<close> is rounded on the grid of
  the subnormal numbers, of spacing \<open>2^-1074\<close>, so that it may round to zero; a magnitude
  that rounds to \<open>2^1024\<close> or more overflows to an infinity.
\<close>

definition round_magnitude :: "real \<Rightarrow> real" where
  "round_magnitude m =
     (if m < 1 / 2 ^ 1022 then of_int (round_half_even (m * 2 ^ 1074)) / 2 ^ 1074
      else round_binary64 m)"

definition round_double :: "bool \<Rightarrow> real \<Rightarrow> double" where
  "round_double s m =
     (let r = round_magnitude m in if 2 ^ 1024 \<le> r then Infinity s else Finite s r)"

definition round_signed :: "real \<Rightarrow> double" where
  "round_signed x = round_double (x < 0) \<bar>x\<bar>"

text \<open>
  The operations. Negation, the unary minus of C, changes the sign bit. A difference is the
  sum with the negated second operand. An exact sum that is zero has the sign of its
  operands when they agree and is \<open>+0\<close> otherwise; a product or a quotient has the
  exclusive or of the signs of its operands; \<open>\<infinity> - \<infinity>\<close>, \<open>0 \<times> \<infinity>\<close>,
  \<open>0 / 0\<close> and \<open>\<infinity> / \<infinity>\<close> are NaN, and so is every operation on a NaN; a
  non-zero number divided by a zero is an infinity. \<^verbatim>\<open>sin\<close> is taken as the correctly
  rounded sine, which is NaN at the infinities and keeps a zero as it is.
\<close>

fun double_neg :: "double \<Rightarrow> double" where
  "double_neg NaN = NaN"
| "double_neg (Infinity s) = Infinity (\<not> s)"
| "double_neg (Finite s m) = Finite (\<not> s) m"

fun double_add :: "double \<Rightarrow> double \<Rightarrow> double" where
  "double_add NaN y = NaN"
| "double_add x NaN = NaN"
| "double_add (Infinity s) (Infinity t) = (if s = t then Infinity s else NaN)"
| "double_add (Infinity s) (Finite t n) = Infinity s"
| "double_add (Finite s m) (Infinity t) = Infinity t"
| "double_add (Finite s m) (Finite t n) =
     (let x = with_sign s m + with_sign t n
      in if x = 0 then Finite (s \<and> t) 0 else round_signed x)"

definition double_sub :: "double \<Rightarrow> double \<Rightarrow> double" where
  "double_sub x y = double_add x (double_neg y)"

fun double_mul :: "double \<Rightarrow> double \<Rightarrow> double" where
  "double_mul NaN y = NaN"
| "double_mul x NaN = NaN"
| "double_mul (Infinity s) (Infinity t) = Infinity (s \<noteq> t)"
| "double_mul (Infinity s) (Finite t n) = (if n = 0 then NaN else Infinity (s \<noteq> t))"
| "double_mul (Finite s m) (Infinity t) = (if m = 0 then NaN else Infinity (s \<noteq> t))"
| "double_mul (Finite s m) (Finite t n) = round_double (s \<noteq> t) (m * n)"

fun double_div :: "double \<Rightarrow> double \<Rightarrow> double" where
  "double_div NaN y = NaN"
| "double_div x NaN = NaN"
| "double_div (Infinity s) (Infinity t) = NaN"
| "double_div (Infinity s) (Finite t n) = Infinity (s \<noteq> t)"
| "double_div (Finite s m) (Infinity t) = Finite (s \<noteq> t) 0"
| "double_div (Finite s m) (Finite t n) =
     (if n = 0 then (if m = 0 then NaN else Infinity (s \<noteq> t))
      else round_double (s \<noteq> t) (m / n))"

fun double_sin :: "double \<Rightarrow> double" where
  "double_sin NaN = NaN"
| "double_sin (Infinity s) = NaN"
| "double_sin (Finite s m) = (if m = 0 then Finite s 0 else round_signed (sin (with_sign s m)))"

text \<open>The comparisons \<^verbatim>\<open><=\<close> and \<^verbatim>\<open>==\<close>: false on a NaN, and the two zeros are equal.\<close>

fun double_le :: "double \<Rightarrow> double \<Rightarrow> bool" where
  "double_le NaN y = False"
| "double_le x NaN = False"
| "double_le (Infinity s) (Infinity t) = (s \<or> \<not> t)"
| "double_le (Infinity s) (Finite t n) = s"
| "double_le (Finite s m) (Infinity t) = (\<not> t)"
| "double_le (Finite s m) (Finite t n) = (with_sign s m \<le> with_sign t n)"

fun double_eq :: "double \<Rightarrow> double \<Rightarrow> bool" where
  "double_eq NaN y = False"
| "double_eq x NaN = False"
| "double_eq (Infinity s) (Infinity t) = (s = t)"
| "double_eq (Infinity s) (Finite t n) = False"
| "double_eq (Finite s m) (Infinity t) = False"
| "double_eq (Finite s m) (Finite t n) = (with_sign s m = with_sign t n)"

text \<open>\<^verbatim>\<open>M_PI\<close> is the binary64 number nearest to \<open>\<pi>\<close>.\<close>

definition binary64_arith :: "double arith" where
  "binary64_arith = \<lparr> d_zero = Finite False 0, d_two = Finite False 2,
     d_pi = Finite False (884279719003555 / 2 ^ 48),
     d_add = double_add, d_sub = double_sub, d_mul = double_mul, d_div = double_div,
     d_sin = double_sin, d_le = double_le, d_eq = double_eq \<rparr>"

text \<open>
  The real number that a finite \<^verbatim>\<open>double\<close> stands for, and the \<^verbatim>\<open>double\<close> that stands for
  a real number, with the sign bit of \<open>+0\<close> at zero.
\<close>

fun is_finite :: "double \<Rightarrow> bool" where
  "is_finite (Finite s m) = True"
| "is_finite x = False"

fun real_of_double :: "double \<Rightarrow> real" where
  "real_of_double (Finite s m) = with_sign s m"
| "real_of_double x = 0"

definition double_of_real :: "real \<Rightarrow> double" where
  "double_of_real x = Finite (x < 0) \<bar>x\<bar>"

subsection \<open>The structures of flowmeter.h\<close>

record 'd AcousticPath =
  position :: 'd
  angle :: 'd
  length_m :: 'd   \<comment> \<open>the field \<^verbatim>\<open>length\<close>\<close>
  weight :: 'd

text \<open>
  A pointer that may be \<^verbatim>\<open>NULL\<close> is an option; a pointer to the first element of an
  array is the list of the elements that are there. The configuration and the
  measurements are only read (they are \<^verbatim>\<open>const\<close>), so they are passed as values and kept
  apart from the storage that the functions allocate and write.
\<close>

record 'd FlowMeterConfig =
  pipe_diameter :: 'd
  num_paths :: "32 word"
  paths :: "'d AcousticPath list option"

record 'd PathMeasurement =
  t_upstream :: 'd
  t_downstream :: 'd

subsection \<open>Allocated storage\<close>

text \<open>
  \<^verbatim>\<open>malloc\<close> returns storage whose contents are indeterminate, so a cell of allocated
  storage is either indeterminate or holds a value.
\<close>

type_synonym addr = nat

datatype 'a cell = Indeterminate | Val 'a

record 'd FlowResult =
  path_velocities :: "addr option cell"
  volumetric_flow :: "'d cell"

datatype 'd obj = Doubles "'d cell list" | Result "'d FlowResult"

text \<open>
  The heap lists the live objects with their addresses. Whether a call of \<^verbatim>\<open>malloc\<close>
  succeeds is not decided by the program: \<open>malloc_script\<close> gives the outcomes of the
  coming calls, \<open>True\<close> for success, and once it is used up every call succeeds.
\<close>

record 'd heap =
  objs :: "(addr \<times> 'd obj) list"
  malloc_script :: "bool list"

text \<open>What C leaves undefined stops the model with a fault.\<close>

datatype fault = OutOfBounds | InvalidPointer | IndeterminateRead

definition fresh_addr :: "'d heap \<Rightarrow> addr" where
  "fresh_addr h = Suc (fold max (map fst (objs h)) 0)"

definition alloc :: "'d heap \<Rightarrow> 'd obj \<Rightarrow> addr option \<times> 'd heap" where
  "alloc h ob = (Some (fresh_addr h), h\<lparr>objs := objs h @ [(fresh_addr h, ob)]\<rparr>)"

definition malloc_succeeds :: "'d heap \<Rightarrow> bool" where
  "malloc_succeeds h = (case malloc_script h of [] \<Rightarrow> True | ok # rest \<Rightarrow> ok)"

definition malloc :: "'d heap \<Rightarrow> 'd obj \<Rightarrow> addr option \<times> 'd heap" where
  "malloc h ob =
     (let h' = h\<lparr>malloc_script := tl (malloc_script h)\<rparr>
      in if malloc_succeeds h then alloc h' ob else (None, h'))"

definition free :: "'d heap \<Rightarrow> addr option \<Rightarrow> fault + 'd heap" where
  "free h p =
     (case p of
        None \<Rightarrow> Inr h
      | Some a \<Rightarrow>
          (case map_of (objs h) a of
             None \<Rightarrow> Inl InvalidPointer
           | Some ob \<Rightarrow> Inr (h\<lparr>objs := AList.delete a (objs h)\<rparr>)))"

subsection \<open>calculate_path_velocity\<close>

definition calculate_path_velocity ::
  "'d arith \<Rightarrow> 'd AcousticPath option \<Rightarrow> 'd PathMeasurement option \<Rightarrow> 'd" where
  "calculate_path_velocity fa path measurement =
     (case (path, measurement) of
        (Some p, Some m) \<Rightarrow>
          let t_up = t_upstream m;
              t_down = t_downstream m
          in if d_le fa t_up (d_zero fa) \<or> d_le fa t_down (d_zero fa) then d_zero fa
             else
               let delta_t = d_sub fa t_up t_down;
                   sin_theta = d_sin fa (angle p)
               in if d_eq fa sin_theta (d_zero fa) then d_zero fa
                  else d_mul fa (d_div fa (length_m p) (d_mul fa (d_two fa) sin_theta))
                                (d_div fa delta_t (d_mul fa t_up t_down))
      | _ \<Rightarrow> d_zero fa)"

subsection \<open>calculate_flow_rate\<close>

text \<open>
  The loop of \<^verbatim>\<open>calculate_flow_rate\<close>, from index \<open>i\<close> on: \<open>vels\<close> is the storage of
  \<^verbatim>\<open>result->path_velocities\<close> and \<open>acc\<close> is \<^verbatim>\<open>weighted_velocity_sum\<close>. Reading
  \<^verbatim>\<open>config->paths[i]\<close> or \<^verbatim>\<open>measurements[i]\<close> past the end of the array is a fault.
\<close>

function velocity_loop ::
  "'d arith \<Rightarrow> 'd AcousticPath list \<Rightarrow> 'd PathMeasurement list \<Rightarrow> 32 word \<Rightarrow>
   32 word \<Rightarrow> 'd cell list \<Rightarrow> 'd \<Rightarrow> fault + ('d cell list \<times> 'd)" where
  "velocity_loop fa ps ms n i vels acc =
     (if i < n then
        (if unat i < length ps \<and> unat i < length ms \<and> unat i < length vels then
           let v = calculate_path_velocity fa (Some (ps ! unat i)) (Some (ms ! unat i))
           in velocity_loop fa ps ms n (i + 1) (vels[unat i := Val v])
                (d_add fa acc (d_mul fa (weight (ps ! unat i)) v))
         else Inl OutOfBounds)
      else Inr (vels, acc))"
  by pat_completeness auto
termination
proof (relation "measure (\<lambda>(fa, ps, ms, n, i, vels, acc). unat n - unat i)")
  show "wf (measure (\<lambda>(fa, ps, ms, n, i, vels, acc). unat n - unat i))"
    by simp
next
  fix fa :: "'d arith" and ps :: "'d AcousticPath list" and ms :: "'d PathMeasurement list"
    and n i :: "32 word" and vels :: "'d cell list" and acc v :: 'd
  assume "i < n"
  then have "unat i < unat n"
    by (simp add: word_less_nat_alt)
  moreover have "unat (i + 1) = Suc (unat i)"
    using \<open>i < n\<close> by unat_arith
  ultimately show "((fa, ps, ms, n, i + 1, vels[unat i := Val v],
       d_add fa acc (d_mul fa (weight (ps ! unat i)) v)),
      (fa, ps, ms, n, i, vels, acc))
     \<in> measure (\<lambda>(fa, ps, ms, n, i, vels, acc). unat n - unat i)"
    by simp
qed

declare velocity_loop.simps [simp del]

text \<open>
  \<^verbatim>\<open>malloc(config->num_paths * sizeof(double))\<close>: the product is computed in \<^verbatim>\<open>size_t\<close>,
  taken as 64 bits wide with \<^verbatim>\<open>sizeof(double) = 8\<close>; the storage holds as many
  \<^verbatim>\<open>double\<close> cells as fit in that many bytes.
\<close>

definition velocity_cells :: "32 word \<Rightarrow> nat" where
  "velocity_cells n = unat ((ucast n :: 64 word) * 8) div 8"

definition write_result :: "'d heap \<Rightarrow> addr \<Rightarrow> 'd FlowResult \<Rightarrow> 'd heap" where
  "write_result h r res = h\<lparr>objs := AList.update r (Result res) (objs h)\<rparr>"

definition calculate_flow_rate ::
  "'d arith \<Rightarrow> 'd FlowMeterConfig option \<Rightarrow> 'd PathMeasurement list option \<Rightarrow>
   addr option \<Rightarrow> 'd heap \<Rightarrow> fault + (int \<times> 'd heap)" where
  "calculate_flow_rate fa config measurements result h =
     (case (config, measurements, result) of
        (Some c, Some ms, Some r) \<Rightarrow>
          if num_paths c = 0 then Inr (- 1, h)
          else
            (case paths c of
               None \<Rightarrow> Inr (- 1, h)
             | Some ps \<Rightarrow>
                 (case malloc h (Doubles (replicate (velocity_cells (num_paths c)) Indeterminate)) of
                    (pv, h1) \<Rightarrow>
                      (case map_of (objs h1) r of
                         Some (Result res) \<Rightarrow>
                           let res1 = res\<lparr>path_velocities := Val pv\<rparr>;
                               h2 = write_result h1 r res1
                           in (case pv of
                                 None \<Rightarrow> Inr (- 1, h2)
                               | Some a \<Rightarrow>
                                   (case velocity_loop fa ps ms (num_paths c) 0
                                           (replicate (velocity_cells (num_paths c)) Indeterminate)
                                           (d_zero fa) of
                                      Inl f \<Rightarrow> Inl f
                                    | Inr (vels, weighted_velocity_sum) \<Rightarrow>
                                        let radius = d_div fa (pipe_diameter c) (d_two fa);
                                            area = d_mul fa (d_mul fa (d_pi fa) radius) radius;
                                            h3 = h2\<lparr>objs := AList.update a (Doubles vels) (objs h2)\<rparr>;
                                            res2 = res1\<lparr>volumetric_flow :=
                                                     Val (d_mul fa area weighted_velocity_sum)\<rparr>
                                        in Inr (0, write_result h3 r res2)))
                       | _ \<Rightarrow> Inl InvalidPointer)))
      | _ \<Rightarrow> Inr (- 1, h))"

subsection \<open>flowmeter_process and flowmeter_result_free\<close>

definition flowmeter_process ::
  "'d arith \<Rightarrow> 'd FlowMeterConfig option \<Rightarrow> 'd PathMeasurement list option \<Rightarrow>
   'd heap \<Rightarrow> fault + (addr option \<times> 'd heap)" where
  "flowmeter_process fa config measurements h =
     (if config = None \<or> measurements = None then Inr (None, h)
      else
        (case malloc h (Result \<lparr>path_velocities = Indeterminate,
                                volumetric_flow = Indeterminate\<rparr>) of
           (None, h1) \<Rightarrow> Inr (None, h1)
         | (Some r, h1) \<Rightarrow>
             (case calculate_flow_rate fa config measurements (Some r) h1 of
                Inl f \<Rightarrow> Inl f
              | Inr (rc, h2) \<Rightarrow>
                  if rc \<noteq> 0 then
                    (case free h2 (Some r) of
                       Inl f \<Rightarrow> Inl f
                     | Inr h3 \<Rightarrow> Inr (None, h3))
                  else Inr (Some r, h2))))"

definition flowmeter_result_free :: "'d heap \<Rightarrow> addr option \<Rightarrow> fault + 'd heap" where
  "flowmeter_result_free h result =
     (case result of
        None \<Rightarrow> Inr h
      | Some r \<Rightarrow>
          (case map_of (objs h) r of
             Some (Result res) \<Rightarrow>
               (case path_velocities res of
                  Indeterminate \<Rightarrow> Inl IndeterminateRead
                | Val None \<Rightarrow> free h (Some r)
                | Val (Some a) \<Rightarrow>
                    (case free h (Some a) of
                       Inl f \<Rightarrow> Inl f
                     | Inr h1 \<Rightarrow> free h1 (Some r)))
           | _ \<Rightarrow> Inl InvalidPointer))"

subsection \<open>What a caller reads through the result\<close>

text \<open>
  The velocity storage and the flow that a caller reaches from a pointer to a
  \<^verbatim>\<open>FlowResult\<close>; nothing when the pointer or its \<^verbatim>\<open>path_velocities\<close> is not valid.
\<close>

definition read_result :: "'d heap \<Rightarrow> addr \<Rightarrow> ('d cell list \<times> 'd cell) option" where
  "read_result h r =
     (case map_of (objs h) r of
        Some (Result res) \<Rightarrow>
          (case path_velocities res of
             Val (Some a) \<Rightarrow>
               (case map_of (objs h) a of
                  Some (Doubles vs) \<Rightarrow> Some (vs, volumetric_flow res)
                | _ \<Rightarrow> None)
           | _ \<Rightarrow> None)
      | _ \<Rightarrow> None)"

subsection \<open>The integration as the specification words it\<close>

text \<open>
  Step 1 of the specification gives the velocity of every index below \<open>n\<close>, step 2 the
  sum of the weighted velocities taken in index order from \<^verbatim>\<open>0.0\<close>, step 3 the area.
  The area is written the way the source multiplies it, \<^verbatim>\<open>M_PI * radius * radius\<close>.
\<close>

definition spec_velocities ::
  "'d arith \<Rightarrow> 'd AcousticPath list \<Rightarrow> 'd PathMeasurement list \<Rightarrow> nat \<Rightarrow> 'd list" where
  "spec_velocities fa ps ms n =
     map (\<lambda>i. calculate_path_velocity fa (Some (ps ! i)) (Some (ms ! i))) [0..<n]"

definition spec_weighted_sum :: "'d arith \<Rightarrow> 'd AcousticPath list \<Rightarrow> 'd list \<Rightarrow> nat \<Rightarrow> 'd" where
  "spec_weighted_sum fa ps vs n =
     foldl (\<lambda>acc i. d_add fa acc (d_mul fa (weight (ps ! i)) (vs ! i))) (d_zero fa) [0..<n]"

definition spec_area :: "'d arith \<Rightarrow> 'd \<Rightarrow> 'd" where
  "spec_area fa diameter =
     d_mul fa (d_mul fa (d_pi fa) (d_div fa diameter (d_two fa))) (d_div fa diameter (d_two fa))"

text \<open>
  Steps 2 to 4 together: the flow as a function of the diameter, the paths and the
  vector of the path velocities.
\<close>

definition flow_of_velocities :: "'d arith \<Rightarrow> 'd \<Rightarrow> 'd AcousticPath list \<Rightarrow> 'd list \<Rightarrow> 'd" where
  "flow_of_velocities fa diameter ps vs =
     d_mul fa (spec_area fa diameter) (spec_weighted_sum fa ps vs (length vs))"

subsection \<open>Conditions on the inputs\<close>

text \<open>
  The configuration errors of the specification: an absent configuration or measurements
  reference, a path count of zero, an absent paths sequence.
\<close>

definition configuration_error ::
  "'d FlowMeterConfig option \<Rightarrow> 'd PathMeasurement list option \<Rightarrow> bool" where
  "configuration_error config measurements =
     (case (config, measurements) of
        (Some c, Some ms) \<Rightarrow> num_paths c = 0 \<or> paths c = None
      | _ \<Rightarrow> True)"

text \<open>
  The sequences hold at least \<^verbatim>\<open>num_paths\<close> elements, and the result reference, when
  present, points to a \<^verbatim>\<open>FlowResult\<close>. The source cannot test either.
\<close>

definition sequences_hold ::
  "'d FlowMeterConfig option \<Rightarrow> 'd PathMeasurement list option \<Rightarrow> bool" where
  "sequences_hold config measurements =
     (case (config, measurements) of
        (Some c, Some ms) \<Rightarrow>
          (case paths c of
             Some ps \<Rightarrow> unat (num_paths c) \<le> length ps \<and> unat (num_paths c) \<le> length ms
           | None \<Rightarrow> True)
      | _ \<Rightarrow> True)"

definition result_valid :: "'d heap \<Rightarrow> addr option \<Rightarrow> bool" where
  "result_valid h result =
     (case result of
        None \<Rightarrow> True
      | Some r \<Rightarrow> (case map_of (objs h) r of Some (Result res) \<Rightarrow> True | _ \<Rightarrow> False))"

text \<open>One of the next \<open>k\<close> calls of \<^verbatim>\<open>malloc\<close> fails.\<close>

definition allocation_fails :: "'d heap \<Rightarrow> nat \<Rightarrow> bool" where
  "allocation_fails h k = (False \<in> set (take k (malloc_script h)))"

subsection \<open>Intervals and rounding errors in binary64\<close>

text \<open>
  A finite \<^verbatim>\<open>double\<close> with the sign bit \<open>s\<close> and a magnitude between \<open>lo\<close> and \<open>hi\<close>.
\<close>

definition double_within :: "bool \<Rightarrow> real \<Rightarrow> real \<Rightarrow> double \<Rightarrow> bool" where
  "double_within s lo hi x =
     (case x of Finite t m \<Rightarrow> t = s \<and> lo \<le> m \<and> m \<le> hi | _ \<Rightarrow> False)"

text \<open>
  The unit roundoff of binary64, half the spacing of the subnormal numbers, and the bound
  on the rounding error of the integration of \<open>n\<close> paths that these give, for an area
  of magnitude \<open>a\<close> and weighted velocities whose magnitudes sum to \<open>t\<close>.
\<close>

definition unit_roundoff :: real where
  "unit_roundoff = 1 / 2 ^ 53"

definition underflow_unit :: real where
  "underflow_unit = 1 / 2 ^ 1075"

definition flow_rounding_bound :: "nat \<Rightarrow> real \<Rightarrow> real \<Rightarrow> real" where
  "flow_rounding_bound n a t =
     a * (((1 + unit_roundoff) ^ (n + 2) - 1) * t
          + 3 * real n * (1 + unit_roundoff) ^ (n + 1) * underflow_unit)
     + underflow_unit"

subsection \<open>Example inputs\<close>

text \<open>
  Two paths in a pipe of diameter 2, at angles \<open>\<pi>/2\<close> and \<open>\<pi>/6\<close>, with transit
  times that give the velocities \<open>1\<close> and \<open>-1\<close>; and a heap in which the caller
  holds one \<^verbatim>\<open>FlowResult\<close>, not yet written, at address 1.
\<close>

definition two_paths :: "real AcousticPath list" where
  "two_paths = [\<lparr> position = 1 / 4, angle = pi / 2, length_m = 4, weight = 3 / 4 \<rparr>,
                \<lparr> position = - 1 / 4, angle = pi / 6, length_m = 2, weight = 1 / 4 \<rparr>]"

definition two_path_config :: "real FlowMeterConfig" where
  "two_path_config = \<lparr> pipe_diameter = 2, num_paths = 2, paths = Some two_paths \<rparr>"

definition two_path_measurements :: "real PathMeasurement list" where
  "two_path_measurements = [\<lparr> t_upstream = 2, t_downstream = 1 \<rparr>,
                            \<lparr> t_upstream = 1, t_downstream = 2 \<rparr>]"

definition caller_heap :: "'d heap" where
  "caller_heap = \<lparr> objs = [(1, Result \<lparr> path_velocities = Indeterminate,
                                         volumetric_flow = Indeterminate \<rparr>)],
                    malloc_script = [] \<rparr>"

text \<open>A path across the pipe at a right angle to its axis, of length 4.\<close>

definition upright_path :: "real AcousticPath" where
  "upright_path = \<lparr> position = 0, angle = pi / 2, length_m = 4, weight = 1 \<rparr>"

text \<open>
  A heap after a successful run on the two paths, and a heap in which the second
  allocation to come fails.
\<close>

definition finished_heap :: "real heap" where
  "finished_heap = \<lparr> objs = [(1, Result \<lparr> path_velocities = Val (Some 2),
                                            volumetric_flow = Val (pi / 2) \<rparr>),
                             (2, Doubles [Val 1, Val (- 1)])],
                      malloc_script = [] \<rparr>"

definition tight_heap :: "real heap" where
  "tight_heap = \<lparr> objs = [], malloc_script = [True, False] \<rparr>"

text \<open>
  The two paths again, in sequences that list a third path and a third measurement past
  \<^verbatim>\<open>num_paths\<close>, and another heap, before and after the run.
\<close>

definition listed_paths :: "real AcousticPath list" where
  "listed_paths = two_paths @ [\<lparr> position = 0, angle = pi / 2, length_m = 1, weight = 5 \<rparr>]"

definition listed_config :: "real FlowMeterConfig" where
  "listed_config = \<lparr> pipe_diameter = 2, num_paths = 2, paths = Some listed_paths \<rparr>"

definition listed_measurements :: "real PathMeasurement list" where
  "listed_measurements = two_path_measurements @ [\<lparr> t_upstream = 3, t_downstream = 4 \<rparr>]"

definition busy_heap :: "real heap" where
  "busy_heap = \<lparr> objs = [(4, Doubles [Val 7]),
                         (5, Result \<lparr> path_velocities = Indeterminate,
                                        volumetric_flow = Indeterminate \<rparr>)],
                  malloc_script = [True] \<rparr>"

definition busy_finished_heap :: "real heap" where
  "busy_finished_heap = \<lparr> objs = [(4, Doubles [Val 7]),
                         (5, Result \<lparr> path_velocities = Val (Some 6),
                                        volumetric_flow = Val (pi / 2) \<rparr>),
                         (6, Doubles [Val 1, Val (- 1)])],
                  malloc_script = [] \<rparr>"

text \<open>
  The end-to-end scenario of the specification: a pipe of diameter 0.1 with one path at
  angle \<open>\<pi>/4\<close>, of length \<open>0.1 / sin (\<pi>/4)\<close> and weight 1, and the transit times
  \<open>9.4925e-5\<close> and \<open>9.5948e-5\<close>; with the velocity and the flow that exact arithmetic
  gives for it, and the heap after the run.
\<close>

definition scenario_path :: "real AcousticPath" where
  "scenario_path = \<lparr> position = 0, angle = pi / 4, length_m = (1 / 10) / sin (pi / 4),
                     weight = 1 \<rparr>"

definition scenario_measurement :: "real PathMeasurement" where
  "scenario_measurement = \<lparr> t_upstream = 94925 / 10 ^ 9, t_downstream = 95948 / 10 ^ 9 \<rparr>"

definition scenario_config :: "real FlowMeterConfig" where
  "scenario_config = \<lparr> pipe_diameter = 1 / 10, num_paths = 1, paths = Some [scenario_path] \<rparr>"

definition scenario_measurements :: "real PathMeasurement list" where
  "scenario_measurements = [scenario_measurement]"

definition scenario_velocity :: real where
  "scenario_velocity = - (1023000000 / 91078639)"

definition scenario_flow :: real where
  "scenario_flow = pi * (1 / 20) * (1 / 20) * scenario_velocity"

definition scenario_heap :: "real heap" where
  "scenario_heap = \<lparr> objs = [(1, Result \<lparr> path_velocities = Val (Some 2),
                                            volumetric_flow = Val scenario_flow \<rparr>),
                             (2, Doubles [Val scenario_velocity])],
                      malloc_script = [] \<rparr>"

text \<open>
  The same scenario in binary64 numbers: the diameter, the angle and the transit times are
  the binary64 numbers nearest to \<open>0.1\<close>, \<^verbatim>\<open>M_PI / 4\<close>, \<open>9.4925e-5\<close> and \<open>9.5948e-5\<close>, and
  the length is computed as \<^verbatim>\<open>0.1 / sin(M_PI / 4)\<close>; with the velocity and the flow that
  binary64 arithmetic gives for it, operation by operation, and the heap after the run.
\<close>

definition scenario_path_binary64 :: "double AcousticPath" where
  "scenario_path_binary64 =
     \<lparr> position = Finite False 0, angle = Finite False (884279719003555 / 2 ^ 50),
       length_m = double_div (Finite False (3602879701896397 / 2 ^ 55))
                    (double_sin (Finite False (884279719003555 / 2 ^ 50))),
       weight = Finite False 1 \<rparr>"

definition scenario_measurement_binary64 :: "double PathMeasurement" where
  "scenario_measurement_binary64 =
     \<lparr> t_upstream = Finite False (7004228724787517 / 2 ^ 66),
       t_downstream = Finite False (442482050096071 / 2 ^ 62) \<rparr>"

definition scenario_config_binary64 :: "double FlowMeterConfig" where
  "scenario_config_binary64 =
     \<lparr> pipe_diameter = Finite False (3602879701896397 / 2 ^ 55), num_paths = 1,
       paths = Some [scenario_path_binary64] \<rparr>"

definition scenario_velocity_binary64 :: double where
  "scenario_velocity_binary64 =
     double_mul
       (double_div (length_m scenario_path_binary64)
          (double_mul (Finite False 2) (double_sin (angle scenario_path_binary64))))
       (double_div
          (double_sub (t_upstream scenario_measurement_binary64)
             (t_downstream scenario_measurement_binary64))
          (double_mul (t_upstream scenario_measurement_binary64)
             (t_downstream scenario_measurement_binary64)))"

definition scenario_flow_binary64 :: double where
  "scenario_flow_binary64 =
     double_mul (spec_area binary64_arith (Finite False (3602879701896397 / 2 ^ 55)))
       (double_add (Finite False 0)
          (double_mul (Finite False 1) scenario_velocity_binary64))"

definition scenario_heap_binary64 :: "double heap" where
  "scenario_heap_binary64 =
     \<lparr> objs = [(1, Result \<lparr> path_velocities = Val (Some 2),
                            volumetric_flow = Val scenario_flow_binary64 \<rparr>),
               (2, Doubles [Val scenario_velocity_binary64])],
       malloc_script = [] \<rparr>"

text \<open>
  Inputs in binary64 numbers: a path of weight 1 and length 44 at the angle \<^verbatim>\<open>M_PI / 2\<close>,
  in a pipe of diameter 2, whose area factor is \<^verbatim>\<open>M_PI\<close>; transit times that give the
  velocities 11 and 33, and the heaps after the runs on them; and two equal transit times
  of \<open>2^-600\<close>, whose product is below the smallest subnormal number.
\<close>

definition unit_weight_path :: "double AcousticPath" where
  "unit_weight_path = \<lparr> position = Finite False 0,
     angle = Finite False (884279719003555 / 2 ^ 49), length_m = Finite False 44,
     weight = Finite False 1 \<rparr>"

definition binary64_config :: "double FlowMeterConfig" where
  "binary64_config = \<lparr> pipe_diameter = Finite False 2, num_paths = 1,
     paths = Some [unit_weight_path] \<rparr>"

definition slow_measurement :: "double PathMeasurement" where
  "slow_measurement = \<lparr> t_upstream = Finite False 2, t_downstream = Finite False 1 \<rparr>"

definition fast_measurement :: "double PathMeasurement" where
  "fast_measurement = \<lparr> t_upstream = Finite False 2, t_downstream = Finite False (1 / 2) \<rparr>"

definition slow_heap :: "double heap" where
  "slow_heap = \<lparr> objs = [(1, Result \<lparr> path_velocities = Val (Some 2),
             volumetric_flow = Val (Finite False (9727076909039104 / 2 ^ 48)) \<rparr>),
                         (2, Doubles [Val (Finite False 11)])],
                  malloc_script = [] \<rparr>"

definition fast_heap :: "double heap" where
  "fast_heap = \<lparr> objs = [(1, Result \<lparr> path_velocities = Val (Some 2),
             volumetric_flow = Val (Finite False (29181230727117316 / 2 ^ 48)) \<rparr>),
                         (2, Doubles [Val (Finite False 33)])],
                  malloc_script = [] \<rparr>"


text \<open>
  For exact arithmetic, measurements for the two paths that give three times the
  velocities, with the heap after the run on them.
\<close>

definition tripled_measurements :: "real PathMeasurement list" where
  "tripled_measurements = [\<lparr> t_upstream = 2, t_downstream = 1 / 2 \<rparr>,
                            \<lparr> t_upstream = 1 / 2, t_downstream = 2 \<rparr>]"

definition tripled_heap :: "real heap" where
  "tripled_heap = \<lparr> objs = [(1, Result \<lparr> path_velocities = Val (Some 2),
                                           volumetric_flow = Val (3 * (pi / 2)) \<rparr>),
                            (2, Doubles [Val 3, Val (- 3)])],
                     malloc_script = [] \<rparr>"

section \<open>Facts about the model\<close>

subsection \<open>Storage\<close>

lemma velocity_cells_eq: "velocity_cells n = unat n"
proof -
  have b: "unat n < 2 ^ 32"
    using unsigned_less [of n, where ?'a = nat] by simp
  have u: "unat (ucast n :: 64 word) = unat n"
    using b by (simp add: unsigned_ucast_eq take_bit_nat_eq_self_iff)
  have "unat ((ucast n :: 64 word) * 8) = (unat n * 8) mod 2 ^ 64"
    by (simp add: unat_word_ariths u)
  also have "\<dots> = unat n * 8"
    using b by simp
  finally show ?thesis by (simp add: velocity_cells_def)
qed

lemma update_append_in:
  "k \<in> fst ` set xs \<Longrightarrow> AList.update k v (xs @ ys) = AList.update k v xs @ ys"
  by (induction xs) auto

lemma update_append_notin:
  "k \<notin> fst ` set xs \<Longrightarrow> AList.update k v (xs @ [(k, w)]) = xs @ [(k, v)]"
  by (induction xs) auto

lemma keys_update_in:
  "k \<in> fst ` set al \<Longrightarrow> fst ` set (AList.update k v al) = fst ` set al"
  by (induction al) auto

lemma unat_succ: "(i::32 word) < n \<Longrightarrow> unat (i + 1) = Suc (unat i)"
  by unat_arith

lemma velocity_loop_run:
  assumes "unat n \<le> length ps" and "unat n \<le> length ms" and "unat n \<le> length vels"
    and "i \<le> n"
  shows "velocity_loop fa ps ms n i vels acc =
    Inr (take (unat i) vels
           @ map (\<lambda>j. Val (calculate_path_velocity fa (Some (ps ! j)) (Some (ms ! j))))
               [unat i..<unat n]
           @ drop (unat n) vels,
         foldl (\<lambda>a j. d_add fa a (d_mul fa (weight (ps ! j))
                  (calculate_path_velocity fa (Some (ps ! j)) (Some (ms ! j)))))
           acc [unat i..<unat n])"
  using assms
proof (induction fa ps ms n i vels acc rule: velocity_loop.induct)
  case (1 fa ps ms n i vels acc)
  show ?case
  proof (cases "i < n")
    case False
    with "1.prems" have "i = n" by simp
    then show ?thesis
      by (simp add: velocity_loop.simps [of fa ps ms n n])
  next
    case True
    then have lt: "unat i < unat n"
      by (simp add: word_less_nat_alt)
    have suc: "unat (i + 1) = Suc (unat i)"
      using True by (rule unat_succ)
    have le: "i + 1 \<le> n"
      using True by (rule inc_le)
    let ?v = "calculate_path_velocity fa (Some (ps ! unat i)) (Some (ms ! unat i))"
    have inb: "unat i < length ps \<and> unat i < length ms \<and> unat i < length vels"
      using lt "1.prems" by simp
    have step: "velocity_loop fa ps ms n i vels acc =
        velocity_loop fa ps ms n (i + 1) (vels[unat i := Val ?v])
          (d_add fa acc (d_mul fa (weight (ps ! unat i)) ?v))"
      using True inb by (subst velocity_loop.simps) (simp add: Let_def)
    have ih: "velocity_loop fa ps ms n (i + 1) (vels[unat i := Val ?v])
          (d_add fa acc (d_mul fa (weight (ps ! unat i)) ?v)) =
        Inr (take (unat (i + 1)) (vels[unat i := Val ?v])
           @ map (\<lambda>j. Val (calculate_path_velocity fa (Some (ps ! j)) (Some (ms ! j))))
               [unat (i + 1)..<unat n]
           @ drop (unat n) (vels[unat i := Val ?v]),
         foldl (\<lambda>a j. d_add fa a (d_mul fa (weight (ps ! j))
                  (calculate_path_velocity fa (Some (ps ! j)) (Some (ms ! j)))))
           (d_add fa acc (d_mul fa (weight (ps ! unat i)) ?v)) [unat (i + 1)..<unat n])"
      using "1.IH" [OF True inb refl] "1.prems" le by simp
    have t: "take (Suc (unat i)) (vels[unat i := Val ?v]) = take (unat i) vels @ [Val ?v]"
      using inb by (simp add: take_Suc_conv_app_nth)
    have d: "drop (unat n) (vels[unat i := Val ?v]) = drop (unat n) vels"
      using lt by simp
    have u: "[unat i..<unat n] = unat i # [Suc (unat i)..<unat n]"
      using lt by (simp add: upt_conv_Cons)
    show ?thesis
      unfolding step ih suc t d u by simp
  qed
qed

lemma fold_max_ge: "fold max xs (b::nat) \<ge> b \<and> (\<forall>a\<in>set xs. a \<le> fold max xs b)"
proof (induction xs arbitrary: b)
  case Nil
  show ?case by simp
next
  case (Cons x xs)
  from Cons.IH [of "max x b"] show ?case by auto
qed

lemma fresh_addr_new: "map_of (objs h) (fresh_addr h) = None"
proof -
  have "fresh_addr h \<notin> set (map fst (objs h))"
    using fold_max_ge [of 0 "map fst (objs h)"] by (auto simp: fresh_addr_def)
  then show ?thesis
    by (simp add: map_of_eq_None_iff)
qed

lemma malloc_success:
  "malloc_succeeds h \<Longrightarrow>
   malloc h ob = (Some (fresh_addr h),
     h\<lparr>objs := objs h @ [(fresh_addr h, ob)], malloc_script := tl (malloc_script h)\<rparr>)"
  by (simp add: malloc_def alloc_def fresh_addr_def Let_def)

lemma malloc_failure:
  "\<not> malloc_succeeds h \<Longrightarrow> malloc h ob = (None, h\<lparr>malloc_script := tl (malloc_script h)\<rparr>)"
  by (simp add: malloc_def Let_def)

lemma spec_weighted_sum_velocities:
  "spec_weighted_sum fa ps (spec_velocities fa ps ms n) n =
   foldl (\<lambda>a j. d_add fa a (d_mul fa (weight (ps ! j))
            (calculate_path_velocity fa (Some (ps ! j)) (Some (ms ! j)))))
     (d_zero fa) [0..<n]"
  unfolding spec_weighted_sum_def
  by (rule foldl_cong) (simp_all add: spec_velocities_def)

lemma velocity_loop_from_zero:
  assumes "unat n \<le> length ps" and "unat n \<le> length ms"
  shows "velocity_loop fa ps ms n 0 (replicate (velocity_cells n) Indeterminate) (d_zero fa) =
    Inr (map Val (spec_velocities fa ps ms (unat n)),
         spec_weighted_sum fa ps (spec_velocities fa ps ms (unat n)) (unat n))"
proof -
  have "velocity_loop fa ps ms n 0 (replicate (unat n) Indeterminate) (d_zero fa) =
    Inr (map (\<lambda>j. Val (calculate_path_velocity fa (Some (ps ! j)) (Some (ms ! j))))
           [0..<unat n],
         foldl (\<lambda>a j. d_add fa a (d_mul fa (weight (ps ! j))
                  (calculate_path_velocity fa (Some (ps ! j)) (Some (ms ! j)))))
           (d_zero fa) [0..<unat n])"
    using velocity_loop_run [of n ps ms "replicate (unat n) Indeterminate" 0 fa "d_zero fa"] assms
    by simp
  then show ?thesis
    by (simp add: velocity_cells_eq spec_weighted_sum_velocities)
       (simp add: spec_velocities_def comp_def)
qed

text \<open>The heap that a successful call of \<^verbatim>\<open>calculate_flow_rate\<close> leaves.\<close>

lemma calculate_flow_rate_success:
  assumes np: "num_paths c \<noteq> 0" and ps: "paths c = Some ps"
    and lp: "unat (num_paths c) \<le> length ps" and lm: "unat (num_paths c) \<le> length ms"
    and r: "map_of (objs h) r = Some (Result res)" and ok: "malloc_succeeds h"
  shows "calculate_flow_rate fa (Some c) (Some ms) (Some r) h =
    Inr (0, h\<lparr>objs := AList.update r
               (Result (res\<lparr>path_velocities := Val (Some (fresh_addr h)),
                  volumetric_flow := Val (d_mul fa (spec_area fa (pipe_diameter c))
                    (spec_weighted_sum fa ps (spec_velocities fa ps ms (unat (num_paths c)))
                       (unat (num_paths c))))\<rparr>))
               (objs h)
             @ [(fresh_addr h, Doubles (map Val (spec_velocities fa ps ms (unat (num_paths c)))))],
           malloc_script := tl (malloc_script h)\<rparr>)"
proof -
  let ?a = "fresh_addr h"
  let ?n = "unat (num_paths c)"
  have ne: "r \<noteq> ?a"
    using r fresh_addr_new [of h] by auto
  have rin: "r \<in> fst ` set (objs h)"
    using r by (metis map_of_eq_None_iff option.distinct(1))
  have anew: "?a \<notin> fst ` set (objs h)"
    using fresh_addr_new [of h] by (simp add: map_of_eq_None_iff)
  have look: "map_of (objs h @ [(?a, ob)]) r = Some (Result res)" for ob
    using r by (simp add: map_add_def)
  have w1: "AList.update r x (objs h @ [(?a, ob)]) = AList.update r x (objs h) @ [(?a, ob)]"
    for x ob
    using rin by (rule update_append_in)
  have w2: "AList.update ?a y (AList.update r x (objs h) @ [(?a, ob)])
      = AList.update r x (objs h) @ [(?a, y)]" for x y ob
  proof (rule update_append_notin)
    show "?a \<notin> fst ` set (AList.update r x (objs h))"
      using anew rin by (simp add: keys_update_in)
  qed
  have w3: "AList.update r x' (AList.update r x (objs h) @ ys) = AList.update r x' (objs h) @ ys"
    for x x' ys
  proof -
    have "r \<in> fst ` set (AList.update r x (objs h))"
      using rin by (simp add: keys_update_in)
    then show ?thesis
      by (simp add: update_append_in)
  qed
  show ?thesis
    using np ps
    by (simp add: calculate_flow_rate_def malloc_success [OF ok] velocity_loop_from_zero [OF lp lm]
        write_result_def look w1 w2 w3 spec_area_def Let_def del: map_of_append)
qed

lemma upt_2: "[0..<2] = [0, Suc 0]"
  by (simp add: upt_rec numeral_2_eq_2)

lemma delete_append_fresh:
  "k \<notin> fst ` set xs \<Longrightarrow> AList.delete k (xs @ [(k, v)]) = xs"
  by (induction xs) auto

lemma fresh_addr_script [simp]: "fresh_addr (h\<lparr>malloc_script := s\<rparr>) = fresh_addr h"
  by (simp add: fresh_addr_def)

lemma fresh_addr_not_key: "fresh_addr h \<notin> fst ` set (objs h)"
  using fresh_addr_new [of h] by (simp add: map_of_eq_None_iff)

lemma malloc_Some:
  assumes "malloc h ob = (Some r, h1)"
  shows "malloc_succeeds h \<and> r = fresh_addr h \<and> objs h1 = objs h @ [(r, ob)]
    \<and> malloc_script h1 = tl (malloc_script h)"
  using assms by (auto simp: malloc_def alloc_def Let_def split: if_splits)

lemma malloc_None:
  assumes "malloc h ob = (None, h1)"
  shows "\<not> malloc_succeeds h \<and> h1 = h\<lparr>malloc_script := tl (malloc_script h)\<rparr>"
  using assms by (auto simp: malloc_def alloc_def Let_def split: if_splits)

text \<open>A call of \<^verbatim>\<open>calculate_flow_rate\<close> that fails allocates nothing.\<close>

lemma calculate_flow_rate_failure:
  assumes "calculate_flow_rate fa config measurements result h = Inr (rc, h')"
    and "rc \<noteq> 0"
  shows "rc = - 1 \<and> map fst (objs h') = map fst (objs h)
    \<and> (\<forall>r. result = Some r \<longrightarrow> AList.delete r (objs h') = AList.delete r (objs h))"
proof (cases "\<exists>c ms r ps. config = Some c \<and> measurements = Some ms \<and> result = Some r
    \<and> num_paths c \<noteq> 0 \<and> paths c = Some ps")
  case False
  then have "calculate_flow_rate fa config measurements result h = Inr (- 1, h)"
    by (auto simp: calculate_flow_rate_def split: option.splits)
  with assms show ?thesis by simp
next
  case True
  then obtain c ms r ps where in_ok: "config = Some c" "measurements = Some ms"
    "result = Some r" "num_paths c \<noteq> 0" "paths c = Some ps"
    by blast
  show ?thesis
  proof (cases "malloc_succeeds h")
    case False
    let ?h1 = "h\<lparr>malloc_script := tl (malloc_script h)\<rparr>"
    from assms in_ok False obtain res where
      res: "map_of (objs h) r = Some (Result res)"
      and h': "h' = write_result ?h1 r (res\<lparr>path_velocities := Val None\<rparr>)" and rc: "rc = - 1"
      by (auto simp: calculate_flow_rate_def malloc_failure Let_def
          split: option.splits obj.splits)
    have rin: "r \<in> fst ` set (objs h)"
      using res by (metis map_of_eq_None_iff option.distinct(1))
    have "map fst (objs h') = map fst (objs h)"
      using rin by (simp add: h' write_result_def AList.update_keys)
    moreover have "AList.delete r (objs h') = AList.delete r (objs h)"
      by (simp add: h' write_result_def AList.delete_update_same)
    ultimately show ?thesis
      using rc in_ok by simp
  next
    case True
    show ?thesis
    proof (cases "map_of (objs h) r")
      case None
      then have "map_of (objs h @ [(fresh_addr h,
          Doubles (replicate (velocity_cells (num_paths c)) Indeterminate))]) r
          \<noteq> Some (Result res)" for res
        by (simp add: map_add_def)
      then have "calculate_flow_rate fa config measurements result h = Inl InvalidPointer"
        using in_ok
        by (simp add: calculate_flow_rate_def malloc_success [OF True]
            split: option.splits obj.splits del: map_of_append)
      with assms show ?thesis by simp
    next
      case (Some ob)
      then have look: "map_of (objs h @ [(fresh_addr h, x)]) r = Some ob" for x
        by (simp add: map_add_def)
      have "\<exists>f h''. calculate_flow_rate fa config measurements result h = Inl f
          \<or> calculate_flow_rate fa config measurements result h = Inr (0, h'')"
        using in_ok
        by (cases ob)
           (auto simp: calculate_flow_rate_def malloc_success [OF True] look Let_def
            split: sum.splits simp del: map_of_append)
      with assms show ?thesis by auto
    qed
  qed
qed

lemma flowmeter_process_failure:
  assumes "flowmeter_process fa config measurements h = Inr (None, h')"
  shows "objs h' = objs h"
proof (cases "config = None \<or> measurements = None")
  case True
  with assms show ?thesis by (simp add: flowmeter_process_def)
next
  case False
  let ?ob = "Result \<lparr>path_velocities = Indeterminate, volumetric_flow = Indeterminate\<rparr>
    :: 'a obj"
  obtain p h1 where m: "malloc h ?ob = (p, h1)"
    by (cases "malloc h ?ob")
  show ?thesis
  proof (cases p)
    case None
    with assms False m have "h' = h1"
      by (simp add: flowmeter_process_def)
    with malloc_None [of h ?ob h1] m None show ?thesis by simp
  next
    case (Some r)
    note ms = malloc_Some [OF m [unfolded Some]]
    from assms False m Some obtain rc h2 where
      c: "calculate_flow_rate fa config measurements (Some r) h1 = Inr (rc, h2)"
      and rc: "rc \<noteq> 0" and f: "free h2 (Some r) = Inr h'"
      by (auto simp: flowmeter_process_def split: sum.splits if_splits)
    from f have "objs h' = AList.delete r (objs h2)"
      by (auto simp: free_def split: option.splits)
    also have "\<dots> = AList.delete r (objs h1)"
      using calculate_flow_rate_failure [OF c rc] by simp
    also have "\<dots> = objs h"
      using ms fresh_addr_not_key [of h] by (simp add: delete_append_fresh)
    finally show ?thesis .
  qed
qed

lemma flowmeter_process_integration_fails:
  assumes "config \<noteq> None" and "measurements \<noteq> None"
    and "malloc h (Result \<lparr>path_velocities = Indeterminate, volumetric_flow = Indeterminate\<rparr>)
          = (Some r, h1)"
    and "calculate_flow_rate fa config measurements (Some r) h1 = Inr (rc, h2)"
    and "rc \<noteq> 0"
  shows "\<exists>h3. flowmeter_process fa config measurements h = Inr (None, h3)
    \<and> objs h3 = objs h"
proof -
  note ms = malloc_Some [OF assms(3)]
  have "r \<in> set (map fst (objs h2))"
    using calculate_flow_rate_failure [OF assms(4,5)] ms by simp
  then obtain ob where "map_of (objs h2) r = Some ob"
    by (metis map_of_eq_None_iff not_Some_eq set_map)
  moreover have "\<not> (config = None \<or> measurements = None)"
    using assms(1,2) by simp
  ultimately have "flowmeter_process fa config measurements h
      = Inr (None, h2\<lparr>objs := AList.delete r (objs h2)\<rparr>)"
    unfolding flowmeter_process_def
    by (simp only: assms(3,4,5) if_False if_True free_def option.case sum.case prod.case
        not_False_eq_True)
  then show ?thesis
    using flowmeter_process_failure by blast
qed

lemma velocity_loop_Inr_bounds:
  "velocity_loop fa ps ms n i vels acc = Inr x \<Longrightarrow> i < n \<Longrightarrow>
   unat n \<le> length ps \<and> unat n \<le> length ms"
proof (induction fa ps ms n i vels acc rule: velocity_loop.induct)
  case (1 fa ps ms n i vels acc)
  let ?v = "calculate_path_velocity fa (Some (ps ! unat i)) (Some (ms ! unat i))"
  have inb: "unat i < length ps \<and> unat i < length ms \<and> unat i < length vels"
    using "1.prems" by (subst (asm) velocity_loop.simps) (auto split: if_splits)
  then have step: "velocity_loop fa ps ms n (i + 1) (vels[unat i := Val ?v])
      (d_add fa acc (d_mul fa (weight (ps ! unat i)) ?v)) = Inr x"
    using "1.prems" by (subst (asm) velocity_loop.simps) (simp add: Let_def)
  have suc: "unat (i + 1) = Suc (unat i)"
    using "1.prems"(2) by (rule unat_succ)
  show ?case
  proof (cases "i + 1 < n")
    case True
    with "1.IH" [OF "1.prems"(2) inb refl step] show ?thesis by simp
  next
    case False
    moreover have "i + 1 \<le> n"
      using "1.prems"(2) by (rule inc_le)
    ultimately have "i + 1 = n" by simp
    then have "unat n = Suc (unat i)"
      using suc by simp
    with inb show ?thesis by simp
  qed
qed

lemma calculate_flow_rate_zeroD:
  assumes "calculate_flow_rate fa config measurements result h = Inr (0, h')"
  shows "\<exists>c ms r ps res. config = Some c \<and> measurements = Some ms \<and> result = Some r
    \<and> num_paths c \<noteq> 0 \<and> paths c = Some ps
    \<and> unat (num_paths c) \<le> length ps \<and> unat (num_paths c) \<le> length ms
    \<and> map_of (objs h) r = Some (Result res) \<and> malloc_succeeds h"
proof -
  from assms obtain c ms r ps where in_ok: "config = Some c" "measurements = Some ms"
    "result = Some r" "num_paths c \<noteq> 0" "paths c = Some ps"
    by (auto simp: calculate_flow_rate_def split: option.splits if_splits)
  have ok: "malloc_succeeds h"
  proof (rule ccontr)
    assume "\<not> malloc_succeeds h"
    with assms in_ok show False
      by (auto simp: calculate_flow_rate_def malloc_failure Let_def
          split: option.splits obj.splits)
  qed
  let ?a = "fresh_addr h"
  let ?cells = "replicate (velocity_cells (num_paths c)) Indeterminate :: 'a cell list"
  from assms in_ok obtain res where
    look: "map_of (objs h @ [(?a, Doubles ?cells)]) r = Some (Result res)"
    and loop: "\<exists>x. velocity_loop fa ps ms (num_paths c) 0 ?cells (d_zero fa) = Inr x"
    by (auto simp: calculate_flow_rate_def malloc_success [OF ok] Let_def
        split: option.splits obj.splits sum.splits simp del: map_of_append)
  from look have r: "map_of (objs h) r = Some (Result res)"
    by (auto simp: map_add_def split: option.splits if_splits)
  have "0 < num_paths c"
    using in_ok(4) by (simp add: word_greater_zero_iff)
  moreover from loop obtain x where
    "velocity_loop fa ps ms (num_paths c) 0 ?cells (d_zero fa) = Inr x" ..
  ultimately have "unat (num_paths c) \<le> length ps \<and> unat (num_paths c) \<le> length ms"
    by (rule velocity_loop_Inr_bounds [rotated])
  with in_ok r ok show ?thesis by simp
qed

text \<open>What the caller reads after a call that returned 0.\<close>

lemma calculate_flow_rate_reads:
  assumes "calculate_flow_rate fa (Some c) (Some ms) (Some r) h = Inr (0, h')"
    and "paths c = Some ps"
  shows "read_result h' r =
        Some (map Val (spec_velocities fa ps ms (unat (num_paths c))),
              Val (d_mul fa (spec_area fa (pipe_diameter c))
                     (spec_weighted_sum fa ps (spec_velocities fa ps ms (unat (num_paths c)))
                        (unat (num_paths c)))))"
proof -
  from calculate_flow_rate_zeroD [OF assms(1)] assms(2) obtain res where
    pre: "num_paths c \<noteq> 0" "paths c = Some ps"
      "unat (num_paths c) \<le> length ps" "unat (num_paths c) \<le> length ms"
      "map_of (objs h) r = Some (Result res)" "malloc_succeeds h"
    by auto
  have ne: "r \<noteq> fresh_addr h"
    using pre(5) fresh_addr_new [of h] by auto
  have rin: "r \<in> fst ` set (objs h)"
    using pre(5) by (metis map_of_eq_None_iff option.distinct(1))
  have anew: "fresh_addr h \<notin> fst ` set (AList.update r x (objs h))" for x
    using fresh_addr_not_key [of h] rin by (simp add: keys_update_in)
  show ?thesis
    using assms(1) ne anew unfolding calculate_flow_rate_success [OF pre]
    by (auto simp: read_result_def AList.update_conv' map_add_def fresh_addr_new)
qed

lemma spec_velocities_take:
  assumes "take n ps = take n ps'" and "take n ms = take n ms'"
  shows "spec_velocities fa ps ms n = spec_velocities fa ps' ms' n"
proof -
  have "ps ! i = ps' ! i \<and> ms ! i = ms' ! i" if "i < n" for i
    using that assms by (metis nth_take)
  then show ?thesis
    by (simp add: spec_velocities_def)
qed

lemma spec_weighted_sum_take:
  assumes "take n ps = take n ps'"
  shows "spec_weighted_sum fa ps vs n = spec_weighted_sum fa ps' vs n"
proof -
  have "ps ! i = ps' ! i" if "i < n" for i
    using that assms by (metis nth_take)
  then show ?thesis
    unfolding spec_weighted_sum_def by (intro foldl_cong) simp_all
qed

lemma two_path_run:
  "calculate_flow_rate real_arith (Some two_path_config) (Some two_path_measurements) (Some 1)
     caller_heap = Inr (0, finished_heap)"
  using calculate_flow_rate_success [of two_path_config two_paths
      two_path_measurements caller_heap 1
      "\<lparr> path_velocities = Indeterminate, volumetric_flow = Indeterminate \<rparr>" real_arith]
  by (simp add: two_path_config_def two_paths_def two_path_measurements_def caller_heap_def
      finished_heap_def malloc_succeeds_def spec_velocities_def spec_weighted_sum_def
      spec_area_def calculate_path_velocity_def real_arith_def upt_2 sin_30 fresh_addr_def)

lemma listed_run:
  "calculate_flow_rate real_arith (Some listed_config) (Some listed_measurements) (Some 5)
     busy_heap = Inr (0, busy_finished_heap)"
  using calculate_flow_rate_success [of listed_config listed_paths
      listed_measurements busy_heap 5
      "\<lparr> path_velocities = Indeterminate, volumetric_flow = Indeterminate \<rparr>" real_arith]
  by (simp add: listed_config_def listed_paths_def listed_measurements_def two_paths_def
      two_path_measurements_def busy_heap_def busy_finished_heap_def malloc_succeeds_def
      spec_velocities_def spec_weighted_sum_def spec_area_def calculate_path_velocity_def
      real_arith_def upt_2 sin_30 fresh_addr_def)

lemma allocation_fails_1: "allocation_fails h (Suc 0) \<longleftrightarrow> \<not> malloc_succeeds h"
  by (cases "malloc_script h") (auto simp: allocation_fails_def malloc_succeeds_def)

lemma allocation_fails_2:
  "allocation_fails h 2 \<longleftrightarrow>
     \<not> malloc_succeeds h \<or> \<not> malloc_succeeds (h\<lparr>malloc_script := tl (malloc_script h)\<rparr>)"
proof (cases "malloc_script h")
  case Nil
  then show ?thesis
    by (simp add: allocation_fails_def malloc_succeeds_def)
next
  case (Cons b s)
  then show ?thesis
    by (cases s) (auto simp: allocation_fails_def malloc_succeeds_def numeral_2_eq_2)
qed

lemma calculate_flow_rate_outcome:
  assumes "sequences_hold config measurements" and "result_valid h result"
  shows "\<exists>h'. calculate_flow_rate fa config measurements result h =
      Inr (if configuration_error config measurements \<or> result = None \<or> allocation_fails h 1
           then - 1 else 0, h')"
proof (cases "configuration_error config measurements \<or> result = None")
  case True
  then have "calculate_flow_rate fa config measurements result h = Inr (- 1, h)"
    by (auto simp: calculate_flow_rate_def configuration_error_def split: option.splits)
  with True show ?thesis by auto
next
  case False
  then obtain c ms r ps where in_ok: "config = Some c" "measurements = Some ms"
    "result = Some r" "num_paths c \<noteq> 0" "paths c = Some ps"
    by (auto simp: configuration_error_def split: option.splits)
  from assms in_ok obtain res where
    pre: "unat (num_paths c) \<le> length ps" "unat (num_paths c) \<le> length ms"
      "map_of (objs h) r = Some (Result res)"
    by (auto simp: sequences_hold_def result_valid_def split: option.splits obj.splits)
  show ?thesis
  proof (cases "malloc_succeeds h")
    case True
    show ?thesis
      using False True in_ok
        calculate_flow_rate_success [OF in_ok(4,5) pre True, of fa]
      by (simp add: allocation_fails_1)
  next
    case nok: False
    then have "\<exists>h'. calculate_flow_rate fa config measurements result h = Inr (- 1, h')"
      using in_ok pre
      by (simp add: calculate_flow_rate_def malloc_failure Let_def)
    with nok show ?thesis
      by (simp add: allocation_fails_1)
  qed
qed

lemma flowmeter_process_outcome:
  assumes "sequences_hold config measurements"
  shows "\<exists>p h'. flowmeter_process fa config measurements h = Inr (p, h')
    \<and> (p = None \<longleftrightarrow> configuration_error config measurements \<or> allocation_fails h 2)"
proof (cases "config = None \<or> measurements = None")
  case True
  then have "configuration_error config measurements"
    by (auto simp: configuration_error_def split: option.splits)
  with True show ?thesis
    by (simp add: flowmeter_process_def)
next
  case present: False
  let ?ob = "Result \<lparr>path_velocities = Indeterminate, volumetric_flow = Indeterminate\<rparr>
    :: 'a obj"
  let ?h0 = "h\<lparr>malloc_script := tl (malloc_script h)\<rparr>"
  show ?thesis
  proof (cases "malloc_succeeds h")
    case False
    then show ?thesis
      using present by (simp add: flowmeter_process_def malloc_failure allocation_fails_2)
  next
    case True
    let ?r = "fresh_addr h"
    let ?h1 = "h\<lparr>objs := objs h @ [(?r, ?ob)], malloc_script := tl (malloc_script h)\<rparr>"
    have m: "malloc h ?ob = (Some ?r, ?h1)"
      using True by (rule malloc_success)
    have valid: "result_valid ?h1 (Some ?r)"
      by (simp add: result_valid_def map_add_def fresh_addr_new)
    from calculate_flow_rate_outcome [OF assms valid, of fa] obtain h2 where
      c: "calculate_flow_rate fa config measurements (Some ?r) ?h1 =
        Inr (if configuration_error config measurements \<or> allocation_fails ?h1 1
             then - 1 else 0, h2)"
      by auto
    have a2: "allocation_fails h 2 \<longleftrightarrow> allocation_fails ?h1 1"
      using True by (simp add: allocation_fails_2 allocation_fails_1) (simp add: malloc_succeeds_def)
    show ?thesis
    proof (cases "configuration_error config measurements \<or> allocation_fails ?h1 1")
      case fail: True
      with c have c': "calculate_flow_rate fa config measurements (Some ?r) ?h1 = Inr (- 1, h2)"
        by simp
      from flowmeter_process_integration_fails [OF _ _ m c'] present
      obtain h3 where "flowmeter_process fa config measurements h = Inr (None, h3)"
        by auto
      with fail a2 show ?thesis by auto
    next
      case ok: False
      with c have "calculate_flow_rate fa config measurements (Some ?r) ?h1 = Inr (0, h2)"
        by simp
      then have "flowmeter_process fa config measurements h = Inr (Some ?r, h2)"
        using present m by (simp add: flowmeter_process_def)
      with ok a2 show ?thesis by auto
    qed
  qed
qed

subsection \<open>Bounds on \<open>\<pi>\<close> and the scenario\<close>

lemma sin_degree_9:
  fixes x :: real
  shows "\<bar>sin x - (x - x ^ 3 / 6 + x ^ 5 / 120 - x ^ 7 / 5040 + x ^ 9 / 362880)\<bar>
    \<le> \<bar>x\<bar> ^ 11 / 39916800"
proof -
  have c: "sin_coeff (Suc 0) = 1" "sin_coeff 2 = 0" "sin_coeff 3 = - 1 / 6" "sin_coeff 4 = 0"
    "sin_coeff 5 = 1 / 120" "sin_coeff 6 = 0" "sin_coeff 7 = - 1 / 5040" "sin_coeff 8 = 0"
    "sin_coeff 9 = 1 / 362880" "sin_coeff 10 = 0"
    by (simp_all add: sin_coeff_def fact_numeral)
  have "{..<11::nat} = {0, 1, 2, 3, 4, 5, 6, 7, 8, 9, 10}"
    by (auto, arith)
  then have "(\<Sum>m<11. sin_coeff m * x ^ m)
      = x - x ^ 3 / 6 + x ^ 5 / 120 - x ^ 7 / 5040 + x ^ 9 / 362880"
    by (simp add: c)
  moreover have "fact 11 = (39916800::real)"
    by (simp add: fact_numeral)
  ultimately have "\<bar>sin x - (x - x ^ 3 / 6 + x ^ 5 / 120 - x ^ 7 / 5040 + x ^ 9 / 362880)\<bar>
      \<le> inverse 39916800 * \<bar>x\<bar> ^ 11"
    using Maclaurin_sin_bound [of x 11] by (simp only:)
  also have "\<dots> = \<bar>x\<bar> ^ 11 / 39916800"
    by (simp only: divide_inverse mult.commute)
  finally show ?thesis .
qed

lemma pi_close: "6 * (5235987740 / 10 ^ 10) < pi \<and> pi < 6 * (5235987770 / 10 ^ 10)"
proof
  have half: "1 \<le> pi / 2"
    using pi_ge_two by simp
  have six: "- (pi / 2) \<le> pi / 6 \<and> pi / 6 \<le> pi / 2"
    using pi_ge_two by simp
  let ?a = "5235987740 / 10 ^ 10 :: real"
  have "sin ?a \<le> ?a - ?a ^ 3 / 6 + ?a ^ 5 / 120 - ?a ^ 7 / 5040 + ?a ^ 9 / 362880
      + \<bar>?a\<bar> ^ 11 / 39916800"
    using sin_degree_9 [of ?a] by linarith
  also have "\<dots> < 1 / 2"
    by (simp add: eval_nat_numeral)
  finally have "sin ?a < sin (pi / 6)"
    by (simp add: sin_30)
  then have "?a < pi / 6"
    using half six by (subst (asm) sin_mono_less_eq) simp_all
  then show "6 * ?a < pi"
    by simp
next
  have half: "1 \<le> pi / 2"
    using pi_ge_two by simp
  have six: "- (pi / 2) \<le> pi / 6 \<and> pi / 6 \<le> pi / 2"
    using pi_ge_two by simp
  let ?b = "5235987770 / 10 ^ 10 :: real"
  have "1 / 2 < ?b - ?b ^ 3 / 6 + ?b ^ 5 / 120 - ?b ^ 7 / 5040 + ?b ^ 9 / 362880
      - \<bar>?b\<bar> ^ 11 / 39916800"
    by (simp add: eval_nat_numeral)
  also have "\<dots> \<le> sin ?b"
    using sin_degree_9 [of ?b] by linarith
  finally have "sin (pi / 6) < sin ?b"
    by (simp add: sin_30)
  then have "pi / 6 < ?b"
    using half six by (subst (asm) sin_mono_less_eq) simp_all
  then show "pi < 6 * ?b"
    by simp
qed

lemma pi_bounds: "3138 / 1000 < pi \<and> pi < 3147 / 1000"
  using pi_close by auto

lemma scenario_path_velocity:
  "calculate_path_velocity real_arith (Some scenario_path) (Some scenario_measurement)
   = scenario_velocity"
proof -
  let ?tu = "94925 / 10 ^ 9 :: real" and ?td = "95948 / 10 ^ 9 :: real"
  have nz: "sin (pi / 4) \<noteq> 0"
    by (simp add: sin_45)
  have guards: "\<not> ?tu \<le> 0" "\<not> ?td \<le> 0"
    by simp_all
  have formula: "calculate_path_velocity real_arith (Some scenario_path)
      (Some scenario_measurement)
    = ((1 / 10) / sin (pi / 4) / (2 * sin (pi / 4))) * ((?tu - ?td) / (?tu * ?td))"
    unfolding calculate_path_velocity_def real_arith_def scenario_path_def
      scenario_measurement_def
    by (simp only: option.case prod.case Let_def arith.simps AcousticPath.simps
        PathMeasurement.simps nz guards if_False simp_thms)
  have "sin (pi / 4) * sin (pi / 4) = 1 / 2"
    by (simp add: sin_45)
  then have "2 * sin (pi / 4) * sin (pi / 4) = 1"
    by simp
  then have geom: "(1 / 10) / sin (pi / 4) / (2 * sin (pi / 4)) = 1 / 10"
    using nz by (simp add: field_simps)
  have times: "(?tu - ?td) / (?tu * ?td) = - (10230000000 / 91078639)"
    by simp
  have "1 / 10 * - (10230000000 / 91078639) = scenario_velocity"
    by (simp add: scenario_velocity_def)
  then show ?thesis
    by (simp only: formula geom times)
qed

lemma scenario_run:
  "calculate_flow_rate real_arith (Some scenario_config) (Some scenario_measurements) (Some 1)
     caller_heap = Inr (0, scenario_heap)"
proof -
  have v: "spec_velocities real_arith [scenario_path] [scenario_measurement] (Suc 0)
      = [scenario_velocity]"
    by (simp add: spec_velocities_def scenario_path_velocity)
  have wt: "weight scenario_path = 1"
    by (simp add: scenario_path_def)
  have w: "spec_weighted_sum real_arith [scenario_path] [scenario_velocity] (Suc 0)
      = scenario_velocity"
    by (simp add: spec_weighted_sum_def real_arith_def wt)
  have a: "spec_area real_arith (1 / 10) = pi * (1 / 20) * (1 / 20)"
    by (simp add: spec_area_def real_arith_def)
  have d: "d_mul real_arith x y = x * y" for x y
    by (simp add: real_arith_def)
  show ?thesis
    using calculate_flow_rate_success [of scenario_config "[scenario_path]"
        scenario_measurements caller_heap 1
        "\<lparr> path_velocities = Indeterminate, volumetric_flow = Indeterminate \<rparr>" real_arith]
    by (simp add: scenario_config_def scenario_measurements_def caller_heap_def
        malloc_succeeds_def v w a d scenario_heap_def scenario_flow_def fresh_addr_def)
qed

subsection \<open>The flow as a function of the velocities\<close>

text \<open>
  The flow that \<^verbatim>\<open>calculate_flow_rate\<close> stores is \<open>flow_of_velocities\<close> of the
  velocities it stores, in every arithmetic.
\<close>

lemma calculate_flow_rate_flow_of_velocities:
  assumes "calculate_flow_rate fa (Some c) (Some ms) (Some r) h = Inr (0, h')"
    and "paths c = Some ps"
  shows "read_result h' r =
      Some (map Val (spec_velocities fa ps ms (unat (num_paths c))),
            Val (flow_of_velocities fa (pipe_diameter c) ps
                   (spec_velocities fa ps ms (unat (num_paths c)))))"
  using calculate_flow_rate_reads [OF assms]
  by (simp add: flow_of_velocities_def spec_velocities_def)

lemma foldl_add_sum:
  fixes f :: "nat \<Rightarrow> real"
  shows "foldl (\<lambda>a i. a + f i) acc [0..<n] = acc + (\<Sum>i<n. f i)"
  by (induction n) simp_all

lemma spec_weighted_sum_real:
  "spec_weighted_sum real_arith ps vs n = (\<Sum>i<n. weight (ps ! i) * vs ! i)"
  using foldl_add_sum [of "\<lambda>i. weight (ps ! i) * vs ! i" 0 n]
  by (simp add: spec_weighted_sum_def real_arith_def)

lemma flow_of_velocities_scale:
  "flow_of_velocities real_arith d ps (map ((*) k) vs)
   = k * flow_of_velocities real_arith d ps vs"
proof -
  have "(\<Sum>i<length vs. weight (ps ! i) * (map ((*) k) vs ! i))
      = k * (\<Sum>i<length vs. weight (ps ! i) * vs ! i)"
    by (simp add: sum_distrib_left mult.left_commute)
  then have "spec_weighted_sum real_arith ps (map ((*) k) vs) (length (map ((*) k) vs))
      = k * spec_weighted_sum real_arith ps vs (length vs)"
    by (simp add: spec_weighted_sum_real)
  then show ?thesis
    by (simp add: flow_of_velocities_def real_arith_def)
qed

lemma tripled_run:
  "calculate_flow_rate real_arith (Some two_path_config) (Some tripled_measurements) (Some 1)
     caller_heap = Inr (0, tripled_heap)"
  using calculate_flow_rate_success [of two_path_config two_paths
      tripled_measurements caller_heap 1
      "\<lparr> path_velocities = Indeterminate, volumetric_flow = Indeterminate \<rparr>" real_arith]
  by (simp add: two_path_config_def two_paths_def tripled_measurements_def caller_heap_def
      tripled_heap_def malloc_succeeds_def spec_velocities_def spec_weighted_sum_def
      spec_area_def calculate_path_velocity_def real_arith_def upt_2 sin_30 fresh_addr_def)

lemma stored_velocities_and_flow:
  assumes "calculate_flow_rate fa (Some c) (Some ms) (Some r) h = Inr (0, h')"
    and "paths c = Some ps" and "read_result h' r = Some (map Val vs, Val q)"
  shows "vs = spec_velocities fa ps ms (unat (num_paths c))
    \<and> length vs = unat (num_paths c)
    \<and> q = flow_of_velocities fa (pipe_diameter c) ps vs"
proof -
  have inj: "map Val xs = map Val ys \<Longrightarrow> xs = ys" for xs ys :: "'a list"
    by (simp add: inj_on_def)
  have "read_result h' r =
      Some (map Val (spec_velocities fa ps ms (unat (num_paths c))),
            Val (flow_of_velocities fa (pipe_diameter c) ps
                   (spec_velocities fa ps ms (unat (num_paths c)))))"
    using assms(1,2) by (rule calculate_flow_rate_flow_of_velocities)
  then have "Some (map Val vs, Val q) =
      Some (map Val (spec_velocities fa ps ms (unat (num_paths c))),
            Val (flow_of_velocities fa (pipe_diameter c) ps
                   (spec_velocities fa ps ms (unat (num_paths c)))))"
    using assms(3) by (simp only:)
  then have 1: "vs = spec_velocities fa ps ms (unat (num_paths c))"
    and 2: "q = flow_of_velocities fa (pipe_diameter c) ps vs"
    by (auto simp only: option.inject prod.inject cell.inject dest: inj)
  moreover have "length (spec_velocities fa ps ms (unat (num_paths c))) = unat (num_paths c)"
    by (simp add: spec_velocities_def)
  ultimately show ?thesis
    by (simp only: simp_thms)
qed

subsection \<open>Rounding to 53 significant bits\<close>

text \<open>
  A number whose magnitude lies in the binade of \<open>2^n\<close> is rounded on the grid of
  spacing \<open>2^(n - 52)\<close>; this evaluates \<open>round_binary64\<close> on the numbers below.
\<close>

lemma round_binary64_in_binade:
  assumes "2 powi n \<le> \<bar>x\<bar>" and "\<bar>x\<bar> < 2 powi (n + 1)"
  shows "round_binary64 x = of_int (round_half_even (x / 2 powi (n - 52))) * 2 powi (n - 52)"
proof -
  have pos: "0 < \<bar>x\<bar>"
    using assms(1) by (smt (verit) zero_less_power_int)
  have p: "(2::real) powr real_of_int k = 2 powi k" for k
    by (rule powr_real_of_int') simp_all
  have "\<bar>x\<bar> < 2 powr real_of_int (n + 1)"
    using assms(2) by (simp only: p)
  then have "\<lfloor>log 2 \<bar>x\<bar>\<rfloor> = n"
    using pos assms(1) by (subst floor_log_eq_powr_iff) (simp_all add: p)
  then show ?thesis
    using pos by (simp add: round_binary64_def Let_def)
qed

lemma round_binary64_values:
  "round_binary64 1 = 1"
  "round_binary64 11 = 11"
  "round_binary64 33 = 33"
  "round_binary64 (884279719003555 / 281474976710656) = 884279719003555 / 281474976710656"
  "round_binary64 (9727076909039105 / 281474976710656) = 9727076909039104 / 281474976710656"
  "round_binary64 (29181230727117315 / 281474976710656)
     = 29181230727117316 / 281474976710656"
  "round_binary64 (29181230727117312 / 281474976710656)
     = 29181230727117312 / 281474976710656"
proof -
  show "round_binary64 1 = 1"
    by (subst round_binary64_in_binade [where n = 0])
       (simp_all add: power_int_def round_half_even_def Let_def power_divide)
  show "round_binary64 11 = 11"
    by (subst round_binary64_in_binade [where n = 3])
       (simp_all add: power_int_def round_half_even_def Let_def power_divide)
  show "round_binary64 33 = 33"
    by (subst round_binary64_in_binade [where n = 5])
       (simp_all add: power_int_def round_half_even_def Let_def power_divide)
  show "round_binary64 (884279719003555 / 281474976710656)
      = 884279719003555 / 281474976710656"
    by (subst round_binary64_in_binade [where n = 1])
       (simp_all add: power_int_def round_half_even_def Let_def power_divide)
  show "round_binary64 (9727076909039105 / 281474976710656)
      = 9727076909039104 / 281474976710656"
    by (subst round_binary64_in_binade [where n = 5])
       (simp_all add: power_int_def round_half_even_def Let_def power_divide)
  show "round_binary64 (29181230727117315 / 281474976710656)
     = 29181230727117316 / 281474976710656"
    by (subst round_binary64_in_binade [where n = 6])
       (simp_all add: power_int_def round_half_even_def Let_def power_divide)
  show "round_binary64 (29181230727117312 / 281474976710656)
     = 29181230727117312 / 281474976710656"
    by (subst round_binary64_in_binade [where n = 6])
       (simp_all add: power_int_def round_half_even_def Let_def power_divide)
qed

lemma round_binary64_small_values:
  "round_binary64 2 = 2"
  "round_binary64 22 = 22"
  "round_binary64 (1 / 2) = 1 / 2"
  "round_binary64 (3 / 2) = 3 / 2"
proof -
  show "round_binary64 2 = 2"
    by (subst round_binary64_in_binade [where n = 1])
       (simp_all add: power_int_def round_half_even_def Let_def power_divide)
  show "round_binary64 22 = 22"
    by (subst round_binary64_in_binade [where n = 4])
       (simp_all add: power_int_def round_half_even_def Let_def power_divide)
  show "round_binary64 (1 / 2) = 1 / 2"
    by (subst round_binary64_in_binade [where n = "- 1"])
       (simp_all add: power_int_def round_half_even_def Let_def power_divide)
  show "round_binary64 (3 / 2) = 3 / 2"
    by (subst round_binary64_in_binade [where n = 0])
       (simp_all add: power_int_def round_half_even_def Let_def power_divide)
qed

text \<open>Rounding commutes with negation and keeps the sign.\<close>

lemma round_half_even_minus: "round_half_even (- y) = - round_half_even y"
proof (cases "y = of_int \<lfloor>y\<rfloor>")
  case True
  then have "\<lfloor>- y\<rfloor> = - \<lfloor>y\<rfloor>"
    by (metis floor_of_int of_int_minus)
  with True show ?thesis
    by (simp add: round_half_even_def Let_def)
next
  case False
  then have lt: "of_int \<lfloor>y\<rfloor> < y"
    using of_int_floor_le [of y] by linarith
  have up: "y < of_int \<lfloor>y\<rfloor> + 1"
    by linarith
  have "\<lfloor>- y\<rfloor> = - \<lfloor>y\<rfloor> - 1"
  proof (rule floor_unique)
    have "(of_int (- \<lfloor>y\<rfloor> - 1) :: real) = - of_int \<lfloor>y\<rfloor> - 1"
      by simp
    then show "of_int (- \<lfloor>y\<rfloor> - 1) \<le> - y"
      and "- y < of_int (- \<lfloor>y\<rfloor> - 1) + 1"
      using up lt by linarith+
  qed
  then show ?thesis
    using lt by (auto simp: round_half_even_def Let_def)
qed

lemma round_binary64_minus: "round_binary64 (- x) = - round_binary64 x"
  by (simp add: round_binary64_def Let_def round_half_even_minus)

lemma round_half_even_pos: "1 \<le> y \<Longrightarrow> 0 < round_half_even y"
proof -
  assume "1 \<le> y"
  then have "1 \<le> \<lfloor>y\<rfloor>"
    by simp
  then show ?thesis
    by (auto simp: round_half_even_def Let_def)
qed

lemma round_binary64_pos:
  assumes "0 < x"
  shows "0 < round_binary64 x"
proof -
  let ?n = "\<lfloor>log 2 \<bar>x\<bar>\<rfloor>"
  have p: "(2::real) powr real_of_int k = 2 powi k" for k
    by (rule powr_real_of_int') simp_all
  have "2 powr real_of_int ?n \<le> \<bar>x\<bar>"
    using assms floor_log_eq_powr_iff [of "\<bar>x\<bar>" 2 ?n] by simp
  then have "2 powi ?n \<le> x"
    using assms by (simp add: p)
  then have "2 powi ?n / 2 powi (?n - 52) \<le> x / 2 powi (?n - 52)"
    by (simp add: divide_right_mono)
  moreover have "(2::real) powi ?n / 2 powi (?n - 52) = 2 ^ 52"
    by (simp add: power_int_diff)
  ultimately have "1 \<le> x / 2 powi (?n - 52)"
    by (smt (verit) one_le_power)
  then have "0 < round_half_even (x / 2 powi (?n - 52))"
    by (rule round_half_even_pos)
  then show ?thesis
    using assms by (simp add: round_binary64_def Let_def)
qed

lemma round_binary64_abs: "\<bar>round_binary64 x\<bar> = round_binary64 \<bar>x\<bar>"
proof (cases "0 < x")
  case True
  then show ?thesis
    using round_binary64_pos [of x] by simp
next
  case False
  show ?thesis
  proof (cases "x = 0")
    case True
    then show ?thesis
      by (simp add: round_binary64_def)
  next
    case False
    with \<open>\<not> 0 < x\<close> have "0 < - x"
      by simp
    then show ?thesis
      using round_binary64_pos [of "- x"] by (simp add: round_binary64_minus)
  qed
qed

lemma round_binary64_sign: "round_binary64 x < 0 \<longleftrightarrow> x < 0"
proof (cases "x = 0")
  case True
  then show ?thesis
    by (simp add: round_binary64_def)
next
  case False
  show ?thesis
  proof (cases "0 < x")
    case True
    then show ?thesis
      using round_binary64_pos [of x] by linarith
  next
    case False
    with \<open>x \<noteq> 0\<close> have "0 < - x"
      by simp
    then have "0 < round_binary64 (- x)"
      by (rule round_binary64_pos)
    then have "round_binary64 x < 0"
      by (simp add: round_binary64_minus)
    with \<open>0 < - x\<close> show ?thesis
      by simp
  qed
qed

text \<open>
  Rounding moves a number by at most the fraction \<open>2^-53\<close> of its magnitude, so an
  interval that holds the exact result of an operation gives one that holds the rounded
  result.
\<close>

lemma round_half_even_close: "\<bar>of_int (round_half_even y) - y\<bar> \<le> 1 / 2"
proof -
  have "of_int \<lfloor>y\<rfloor> \<le> y" "y < of_int \<lfloor>y\<rfloor> + 1"
    by linarith+
  then show ?thesis
    by (auto simp: round_half_even_def Let_def abs_le_iff)
qed

lemma round_binary64_close: "\<bar>round_binary64 x - x\<bar> \<le> \<bar>x\<bar> / 2 ^ 53"
proof (cases "x = 0")
  case True
  then show ?thesis
    by (simp add: round_binary64_def)
next
  case False
  let ?n = "\<lfloor>log 2 \<bar>x\<bar>\<rfloor>"
  let ?u = "2 powi (?n - 52) :: real"
  have u: "0 < ?u"
    by simp
  have p: "(2::real) powr real_of_int k = 2 powi k" for k
    by (rule powr_real_of_int') simp_all
  have "2 powr real_of_int ?n \<le> \<bar>x\<bar>"
    using False floor_log_eq_powr_iff [of "\<bar>x\<bar>" 2 ?n] by simp
  then have n: "2 powi ?n \<le> \<bar>x\<bar>"
    by (simp only: p)
  have un: "?u * 2 ^ 52 = 2 powi ?n"
    by (simp add: power_int_diff)
  have "round_binary64 x - x = (of_int (round_half_even (x / ?u)) - x / ?u) * ?u"
    using False by (simp add: round_binary64_def Let_def left_diff_distrib)
  then have "\<bar>round_binary64 x - x\<bar> = \<bar>of_int (round_half_even (x / ?u)) - x / ?u\<bar> * ?u"
    using u by (simp only: abs_mult abs_of_pos)
  also have "\<dots> \<le> 1 / 2 * ?u"
    using round_half_even_close [of "x / ?u"] u by (intro mult_right_mono) simp_all
  also have "\<dots> = 2 powi ?n / 2 ^ 53"
    using un by simp
  also have "\<dots> \<le> \<bar>x\<bar> / 2 ^ 53"
    using n by (simp add: divide_right_mono)
  finally show ?thesis .
qed

lemma round_binary64_interval:
  assumes "lo \<le> x" and "x \<le> hi" and "0 \<le> lo"
    and "lo' \<le> lo * (1 - 1 / 2 ^ 53)" and "hi * (1 + 1 / 2 ^ 53) \<le> hi'"
  shows "lo' \<le> round_binary64 x \<and> round_binary64 x \<le> hi'"
proof -
  have x: "0 \<le> x"
    using assms by linarith
  have c: "\<bar>round_binary64 x - x\<bar> \<le> x / 2 ^ 53"
    using round_binary64_close [of x] x by simp
  define t where "t = (1 / 2 ^ 53 :: real)"
  have t: "0 \<le> t" "t \<le> 1"
    by (simp_all add: t_def)
  have "\<bar>round_binary64 x - x\<bar> \<le> x * t"
    using c by (simp add: t_def)
  then have r: "x - x * t \<le> round_binary64 x" "round_binary64 x \<le> x + x * t"
    by linarith+
  have "lo * (1 - t) \<le> x * (1 - t)"
    using assms(1) t by (intro mult_right_mono) simp_all
  then have "lo * (1 - t) \<le> round_binary64 x"
    using r(1) by (simp add: algebra_simps)
  moreover have "x * (1 + t) \<le> hi * (1 + t)"
    using assms(2) t by (intro mult_right_mono) simp_all
  then have "round_binary64 x \<le> hi * (1 + t)"
    using r(2) by (simp add: algebra_simps)
  moreover have "lo' \<le> lo * (1 - t)" and "hi * (1 + t) \<le> hi'"
    using assms(4,5) by (simp_all only: t_def)
  ultimately show ?thesis
    by linarith
qed

lemma product_interval:
  fixes x y :: real
  assumes "l1 \<le> x" and "x \<le> h1" and "l2 \<le> y" and "y \<le> h2" and "0 \<le> l1" and "0 \<le> l2"
  shows "l1 * l2 \<le> x * y \<and> x * y \<le> h1 * h2"
  using assms by (auto intro!: mult_mono)

lemma quotient_interval:
  fixes x y :: real
  assumes "l1 \<le> x" and "x \<le> h1" and "l2 \<le> y" and "y \<le> h2" and "0 \<le> l1" and "0 < l2"
  shows "l1 / h2 \<le> x / y \<and> x / y \<le> h1 / l2"
  using assms by (auto intro!: frac_le)

text \<open>
  The sine of the binary64 number \<^verbatim>\<open>M_PI / 2\<close> is so close to 1 that it rounds to 1.
\<close>

lemma cos_lower: "1 - x\<^sup>2 / 2 \<le> cos (x::real)"
proof -
  have "cos x = 1 - 2 * (sin (x / 2))\<^sup>2"
    using cos_double_sin [of "x / 2"] by simp
  moreover have "(sin (x / 2))\<^sup>2 \<le> (x / 2)\<^sup>2"
    using abs_sin_x_le_abs_x [of "x / 2"] by (simp add: abs_le_square_iff [symmetric])
  ultimately show ?thesis
    by (simp add: power_divide)
qed

lemma round_half_even_up:
  assumes "of_int n - 1 / 2 < z" and "z < of_int n"
  shows "round_half_even z = n"
proof -
  have "\<lfloor>z\<rfloor> = n - 1"
    by (rule floor_unique) (use assms in simp_all)
  then show ?thesis
    using assms(1) by (simp add: round_half_even_def Let_def)
qed

lemma round_binary64_near_one:
  assumes "1 - 1 / 2 ^ 54 < y" and "y \<le> 1"
  shows "round_binary64 y = 1"
proof (cases "y = 1")
  case True
  then show ?thesis
    by (simp add: round_binary64_values)
next
  case False
  with assms have lt: "y < 1" by simp
  have "of_int (2 ^ 53) - 1 / 2 < y * 2 ^ 53"
    using assms(1) by (simp add: field_simps)
  moreover have "y * 2 ^ 53 < of_int (2 ^ 53)"
    using lt by simp
  ultimately have r: "round_half_even (y * 2 ^ 53) = 2 ^ 53"
    by (rule round_half_even_up)
  have "round_binary64 y
      = of_int (round_half_even (y / 2 powi (- 1 - 52))) * 2 powi (- 1 - 52)"
    by (rule round_binary64_in_binade) (use assms lt in \<open>simp_all add: power_int_def\<close>)
  also have "y / 2 powi (- 1 - 52) = y * 2 ^ 53"
    by (simp add: power_int_def power_divide)
  also have "of_int (round_half_even (y * 2 ^ 53)) * 2 powi (- 1 - 52) = (1::real)"
    unfolding r by (simp add: power_int_def power_divide)
  finally show ?thesis .
qed

lemma sin_half_pi_binary64:
  "1 - 1 / 2 ^ 54 < sin (884279719003555 / 2 ^ 49 :: real)
   \<and> round_binary64 (sin (884279719003555 / 2 ^ 49)) = 1"
proof -
  let ?a = "884279719003555 / 2 ^ 49 :: real"
  let ?d = "pi / 2 - ?a"
  have d: "\<bar>?d\<bar> < 1 / 10 ^ 8"
    using pi_close unfolding abs_less_iff by auto
  have sc: "sin ?a = cos ?d"
    by (simp add: cos_diff)
  have "\<bar>?d\<bar>\<^sup>2 < (1 / 10 ^ 8)\<^sup>2"
    using d by (intro power_strict_mono) simp_all
  moreover have "(1 / 10 ^ 8 :: real)\<^sup>2 = 1 / 10000000000000000"
    by (simp add: power2_eq_square)
  ultimately have "?d\<^sup>2 < 1 / 10000000000000000"
    by (simp only: power2_abs)
  then have "1 - 1 / 18014398509481984 < 1 - ?d\<^sup>2 / 2"
    by linarith
  then have "1 - 1 / 2 ^ 54 < 1 - ?d\<^sup>2 / 2"
    by simp
  then have c: "1 - 1 / 2 ^ 54 < cos ?d"
    using cos_lower [of ?d] by linarith
  then have "round_binary64 (cos ?d) = 1"
    by (intro round_binary64_near_one) simp_all
  with c show ?thesis
    by (simp only: sc simp_thms)
qed

subsection \<open>Rounding in the range of binary64\<close>

text \<open>
  In the range of the normal numbers \<open>round_double\<close> is \<open>round_binary64\<close>; everywhere
  it moves a magnitude by at most the fraction \<open>2^-53\<close> of it and half the spacing of the
  subnormal numbers.
\<close>

lemma round_magnitude_zero [simp]: "round_magnitude 0 = 0"
  by (simp add: round_magnitude_def round_half_even_def)

lemma round_double_zero [simp]: "round_double s 0 = Finite s 0"
  by (simp add: round_double_def)

lemma round_magnitude_close:
  "\<bar>round_magnitude m - m\<bar> \<le> \<bar>m\<bar> / 2 ^ 53 + 1 / 2 ^ 1075"
proof (cases "m < 1 / 2 ^ 1022")
  case True
  have "round_magnitude m - m = (of_int (round_half_even (m * 2 ^ 1074)) - m * 2 ^ 1074) / 2 ^ 1074"
    using True by (simp add: round_magnitude_def diff_divide_distrib)
  then have "\<bar>round_magnitude m - m\<bar>
      = \<bar>of_int (round_half_even (m * 2 ^ 1074)) - m * 2 ^ 1074\<bar> / 2 ^ 1074"
    by (simp only: abs_divide) simp
  also have "\<dots> \<le> (1 / 2) / 2 ^ 1074"
    using round_half_even_close [of "m * 2 ^ 1074"] by (intro divide_right_mono) simp_all
  also have "\<dots> = 1 / 2 ^ 1075"
    by simp
  finally show ?thesis
    by (smt (verit) divide_nonneg_nonneg abs_ge_zero zero_le_power)
next
  case False
  then have "\<bar>round_magnitude m - m\<bar> \<le> \<bar>m\<bar> / 2 ^ 53"
    using round_binary64_close [of m] by (simp add: round_magnitude_def)
  then show ?thesis
    by (smt (verit) divide_nonneg_nonneg zero_le_power)
qed

lemma round_double_normal:
  assumes "1 / 2 ^ 1022 \<le> m" and "m \<le> 2 ^ 1023"
  shows "round_double s m = Finite s (round_binary64 m)"
proof -
  have "0 \<le> m"
    using assms(1) by (smt (verit) divide_nonneg_nonneg zero_le_power)
  then have "\<bar>round_binary64 m - m\<bar> \<le> m / 2 ^ 53"
    using round_binary64_close [of m] by simp
  moreover have "m / 2 ^ 53 \<le> 2 ^ 1023 / 2 ^ 53"
    using assms(2) by (intro divide_right_mono) simp_all
  moreover have "(2 ^ 1023 / 2 ^ 53 :: real) + 2 ^ 1023 < 2 ^ 1024"
    by simp
  ultimately have "round_binary64 m < 2 ^ 1024"
    using assms(2) by linarith
  then show ?thesis
    using assms(1) by (simp add: round_double_def round_magnitude_def not_less [symmetric])
qed

lemma round_signed_normal:
  assumes "1 / 2 ^ 1022 \<le> \<bar>x\<bar>" and "\<bar>x\<bar> \<le> 2 ^ 1023"
  shows "round_signed x = double_of_real (round_binary64 x)"
  using round_double_normal [OF assms]
  by (simp add: round_signed_def double_of_real_def round_binary64_sign round_binary64_abs)

lemma round_double_values:
  "round_double s 1 = Finite s 1"
  "round_double s 2 = Finite s 2"
  "round_double s 11 = Finite s 11"
  "round_double s 22 = Finite s 22"
  "round_double s 33 = Finite s 33"
  "round_double s (1 / 2) = Finite s (1 / 2)"
  "round_double s (3 / 2) = Finite s (3 / 2)"
  "round_double s (884279719003555 / 281474976710656)
     = Finite s (884279719003555 / 281474976710656)"
  "round_double s (9727076909039105 / 281474976710656)
     = Finite s (9727076909039104 / 281474976710656)"
  "round_double s (29181230727117315 / 281474976710656)
     = Finite s (29181230727117316 / 281474976710656)"
  "round_double s (29181230727117312 / 281474976710656)
     = Finite s (29181230727117312 / 281474976710656)"
proof -
  have n: "1 / 2 ^ 1022 \<le> m \<Longrightarrow> m \<le> 2 ^ 1023 \<Longrightarrow> round_binary64 m = r
      \<Longrightarrow> round_double s m = Finite s r" for m r
    using round_double_normal [of m s] by simp
  show "round_double s 1 = Finite s 1"
    by (rule n, simp, simp, rule round_binary64_values)
  show "round_double s 2 = Finite s 2"
    by (rule n, simp, simp, rule round_binary64_small_values)
  show "round_double s 11 = Finite s 11"
    by (rule n, simp, simp, rule round_binary64_values)
  show "round_double s 22 = Finite s 22"
    by (rule n, simp, simp, rule round_binary64_small_values)
  show "round_double s 33 = Finite s 33"
    by (rule n, simp, simp, rule round_binary64_values)
  show "round_double s (1 / 2) = Finite s (1 / 2)"
    by (rule n, simp, simp, rule round_binary64_small_values)
  show "round_double s (3 / 2) = Finite s (3 / 2)"
    by (rule n, simp, simp, rule round_binary64_small_values)
  show "round_double s (884279719003555 / 281474976710656)
     = Finite s (884279719003555 / 281474976710656)"
    by (rule n, simp, simp, rule round_binary64_values)
  show "round_double s (9727076909039105 / 281474976710656)
     = Finite s (9727076909039104 / 281474976710656)"
    by (rule n, simp, simp, rule round_binary64_values)
  show "round_double s (29181230727117315 / 281474976710656)
     = Finite s (29181230727117316 / 281474976710656)"
    by (rule n, simp, simp, rule round_binary64_values)
  show "round_double s (29181230727117312 / 281474976710656)
     = Finite s (29181230727117312 / 281474976710656)"
    by (rule n, simp, simp, rule round_binary64_values)
qed

lemma binary64_ops:
  "d_zero binary64_arith = Finite False 0" "d_two binary64_arith = Finite False 2"
  "d_pi binary64_arith = Finite False (884279719003555 / 2 ^ 48)"
  "d_add binary64_arith = double_add" "d_sub binary64_arith = double_sub"
  "d_mul binary64_arith = double_mul" "d_div binary64_arith = double_div"
  "d_sin binary64_arith = double_sin" "d_le binary64_arith = double_le"
  "d_eq binary64_arith = double_eq"
  by (simp_all add: binary64_arith_def)

subsection \<open>Exchanging the transit times\<close>














text \<open>
  Two equal transit times of \<open>2^-600\<close>: their difference is \<open>+0\<close>, their product rounds to
  \<open>+0\<close>, and the quotient of the two is NaN.
\<close>

lemma unit_weight_path_sin: "double_sin (angle unit_weight_path) = Finite False 1"
proof -
  let ?a = "884279719003555 / 2 ^ 49 :: real"
  have s: "1 - 1 / 2 ^ 54 < sin ?a" and r: "round_binary64 (sin ?a) = 1"
    using sin_half_pi_binary64 by simp_all
  have "1 / 2 \<le> sin ?a"
    using s by simp
  then have "\<bar>sin ?a\<bar> = sin ?a"
    by simp
  moreover have "(1 / 2 ^ 1022 :: real) \<le> 1 / 2"
    by simp
  moreover have "sin ?a \<le> 1" and "(1 :: real) \<le> 2 ^ 1023"
    by simp_all
  ultimately have "1 / 2 ^ 1022 \<le> \<bar>sin ?a\<bar>" and "\<bar>sin ?a\<bar> \<le> 2 ^ 1023"
    using \<open>1 / 2 \<le> sin ?a\<close> by linarith+
  then have "round_signed (sin ?a) = double_of_real (round_binary64 (sin ?a))"
    by (rule round_signed_normal)
  then have "round_signed (sin ?a) = double_of_real 1"
    by (simp only: r)
  moreover have "double_of_real 1 = Finite False 1"
    by (simp add: double_of_real_def)
  moreover have "?a \<noteq> 0"
    by simp
  then have "double_sin (Finite False ?a) = round_signed (sin ?a)"
    by (simp only: double_sin.simps with_sign_def if_False)
  moreover have "angle unit_weight_path = Finite False ?a"
    by (simp only: unit_weight_path_def AcousticPath.simps)
  ultimately show ?thesis
    by (simp only:)
qed


lemma calculate_path_velocity_formula:
  assumes "\<not> d_le fa (t_upstream m) (d_zero fa)" and "\<not> d_le fa (t_downstream m) (d_zero fa)"
    and "\<not> d_eq fa (d_sin fa (angle p)) (d_zero fa)"
  shows "calculate_path_velocity fa (Some p) (Some m)
    = d_mul fa (d_div fa (length_m p) (d_mul fa (d_two fa) (d_sin fa (angle p))))
        (d_div fa (d_sub fa (t_upstream m) (t_downstream m))
           (d_mul fa (t_upstream m) (t_downstream m)))"
  using assms by (simp add: calculate_path_velocity_def Let_def)



subsection \<open>Two runs in binary64 arithmetic\<close>

lemma binary64_area:
  "spec_area binary64_arith (Finite False 2) = Finite False (884279719003555 / 281474976710656)"
  by (simp add: spec_area_def binary64_arith_def round_double_values)

lemma binary64_velocity_11:
  "calculate_path_velocity binary64_arith (Some unit_weight_path) (Some slow_measurement)
   = Finite False 11"
proof -
  have "length_m unit_weight_path = Finite False 44"
    by (simp add: unit_weight_path_def)
  then show ?thesis
    by (simp add: calculate_path_velocity_def slow_measurement_def Let_def binary64_ops
        unit_weight_path_sin double_sub_def round_signed_def with_sign_def round_double_values)
qed

lemma binary64_velocity_33:
  "calculate_path_velocity binary64_arith (Some unit_weight_path) (Some fast_measurement)
   = Finite False 33"
proof -
  have "length_m unit_weight_path = Finite False 44"
    by (simp add: unit_weight_path_def)
  then show ?thesis
    by (simp add: calculate_path_velocity_def fast_measurement_def Let_def binary64_ops
        unit_weight_path_sin double_sub_def round_signed_def with_sign_def round_double_values)
qed

lemma binary64_weighted_sum:
  "round_double False v = Finite False v \<Longrightarrow> 0 < v \<Longrightarrow>
   spec_weighted_sum binary64_arith [unit_weight_path] [Finite False v] (Suc 0) = Finite False v"
  by (simp add: spec_weighted_sum_def binary64_ops unit_weight_path_def round_signed_def
      with_sign_def)

lemma slow_run:
  "calculate_flow_rate binary64_arith (Some binary64_config) (Some [slow_measurement]) (Some 1)
     caller_heap = Inr (0, slow_heap)"
proof -
  have v: "spec_velocities binary64_arith [unit_weight_path] [slow_measurement] (Suc 0)
      = [Finite False 11]"
    by (simp add: spec_velocities_def binary64_velocity_11)
  have w: "spec_weighted_sum binary64_arith [unit_weight_path] [Finite False 11] (Suc 0)
      = Finite False 11"
    by (rule binary64_weighted_sum) (simp_all add: round_double_values)
  have q: "d_mul binary64_arith (Finite False (884279719003555 / 281474976710656))
        (Finite False 11) = Finite False (9727076909039104 / 281474976710656)"
    by (simp add: binary64_ops round_double_values)
  show ?thesis
    using calculate_flow_rate_success [of binary64_config "[unit_weight_path]"
        "[slow_measurement]" caller_heap 1
        "\<lparr> path_velocities = Indeterminate, volumetric_flow = Indeterminate \<rparr>"
        binary64_arith]
    by (simp add: binary64_config_def caller_heap_def malloc_succeeds_def v w binary64_area q
        slow_heap_def fresh_addr_def)
qed

lemma fast_run:
  "calculate_flow_rate binary64_arith (Some binary64_config) (Some [fast_measurement]) (Some 1)
     caller_heap = Inr (0, fast_heap)"
proof -
  have v: "spec_velocities binary64_arith [unit_weight_path] [fast_measurement] (Suc 0)
      = [Finite False 33]"
    by (simp add: spec_velocities_def binary64_velocity_33)
  have w: "spec_weighted_sum binary64_arith [unit_weight_path] [Finite False 33] (Suc 0)
      = Finite False 33"
    by (rule binary64_weighted_sum) (simp_all add: round_double_values)
  have q: "d_mul binary64_arith (Finite False (884279719003555 / 281474976710656))
        (Finite False 33) = Finite False (29181230727117316 / 281474976710656)"
    by (simp add: binary64_ops round_double_values)
  show ?thesis
    using calculate_flow_rate_success [of binary64_config "[unit_weight_path]"
        "[fast_measurement]" caller_heap 1
        "\<lparr> path_velocities = Indeterminate, volumetric_flow = Indeterminate \<rparr>"
        binary64_arith]
    by (simp add: binary64_config_def caller_heap_def malloc_succeeds_def v w binary64_area q
        fast_heap_def fresh_addr_def)
qed

lemma slow_fast_flows:
  "flow_of_velocities binary64_arith (Finite False 2) [unit_weight_path] [Finite False 11]
   = Finite False (9727076909039104 / 2 ^ 48)"
  "flow_of_velocities binary64_arith (Finite False 2) [unit_weight_path] [Finite False 33]
   = Finite False (29181230727117316 / 2 ^ 48)"
proof -
  have w: "spec_weighted_sum binary64_arith [unit_weight_path] [Finite False 11] (Suc 0)
      = Finite False 11"
    "spec_weighted_sum binary64_arith [unit_weight_path] [Finite False 33] (Suc 0)
      = Finite False 33"
    by (rule binary64_weighted_sum; simp add: round_double_values)+
  show "flow_of_velocities binary64_arith (Finite False 2) [unit_weight_path] [Finite False 11]
   = Finite False (9727076909039104 / 2 ^ 48)"
    by (simp add: flow_of_velocities_def w binary64_area binary64_ops round_double_values)
  show "flow_of_velocities binary64_arith (Finite False 2) [unit_weight_path] [Finite False 33]
   = Finite False (29181230727117316 / 2 ^ 48)"
    by (simp add: flow_of_velocities_def w binary64_area binary64_ops round_double_values)
qed

subsection \<open>The scenario in binary64 arithmetic\<close>

text \<open>
  Interval arithmetic on positive magnitudes between \<open>10^-9\<close> and \<open>10^9\<close>, where every
  result is a normal number.
\<close>

lemma round_double_within:
  assumes "lo \<le> m" and "m \<le> hi" and "1 / 10 ^ 9 \<le> lo" and "hi \<le> 10 ^ 9"
    and "lo' \<le> lo * (1 - 1 / 2 ^ 53)" and "hi * (1 + 1 / 2 ^ 53) \<le> hi'"
  shows "double_within s lo' hi' (round_double s m)"
proof -
  have "(1 / 2 ^ 1022 :: real) \<le> 1 / 10 ^ 9" and "(10 ^ 9 :: real) \<le> 2 ^ 1023"
    by simp_all
  then have "1 / 2 ^ 1022 \<le> m" and "m \<le> 2 ^ 1023"
    using assms(1-4) by linarith+
  then have "round_double s m = Finite s (round_binary64 m)"
    by (rule round_double_normal)
  moreover have "0 \<le> lo"
    using assms(3) by (smt (verit) divide_nonneg_nonneg zero_le_power)
  then have "lo' \<le> round_binary64 m \<and> round_binary64 m \<le> hi'"
    using assms by (intro round_binary64_interval [where lo = lo and hi = hi]) simp_all
  ultimately show ?thesis
    by (simp add: double_within_def)
qed

lemma double_mul_within:
  assumes "double_within s l1 h1 x" and "double_within t l2 h2 y"
    and "0 \<le> l1" and "0 \<le> l2" and "1 / 10 ^ 9 \<le> l1 * l2" and "h1 * h2 \<le> 10 ^ 9"
    and "lo' \<le> l1 * l2 * (1 - 1 / 2 ^ 53)" and "h1 * h2 * (1 + 1 / 2 ^ 53) \<le> hi'"
  shows "double_within (s \<noteq> t) lo' hi' (double_mul x y)"
proof -
  obtain m n where x: "x = Finite s m" "l1 \<le> m" "m \<le> h1"
    and y: "y = Finite t n" "l2 \<le> n" "n \<le> h2"
    using assms(1,2) by (auto simp: double_within_def split: double.splits)
  have "l1 * l2 \<le> m * n \<and> m * n \<le> h1 * h2"
    using x y assms(3,4) by (intro product_interval) simp_all
  then show ?thesis
    unfolding x y double_mul.simps
    using assms(5-8) by (intro round_double_within [where lo = "l1 * l2" and hi = "h1 * h2"])
      simp_all
qed

lemma double_div_within:
  assumes "double_within s l1 h1 x" and "double_within t l2 h2 y"
    and "0 \<le> l1" and "0 < l2" and "1 / 10 ^ 9 \<le> l1 / h2" and "h1 / l2 \<le> 10 ^ 9"
    and "lo' \<le> l1 / h2 * (1 - 1 / 2 ^ 53)" and "h1 / l2 * (1 + 1 / 2 ^ 53) \<le> hi'"
  shows "double_within (s \<noteq> t) lo' hi' (double_div x y)"
proof -
  obtain m n where x: "x = Finite s m" "l1 \<le> m" "m \<le> h1"
    and y: "y = Finite t n" "l2 \<le> n" "n \<le> h2"
    using assms(1,2) by (auto simp: double_within_def split: double.splits)
  have n: "n \<noteq> 0"
    using y assms(4) by simp
  have "l1 / h2 \<le> m / n \<and> m / n \<le> h1 / l2"
    using x y assms(3,4) by (intro quotient_interval) simp_all
  then have "double_within (s \<noteq> t) lo' hi' (round_double (s \<noteq> t) (m / n))"
    using assms(5-8) by (intro round_double_within [where lo = "l1 / h2" and hi = "h1 / l2"])
      simp_all
  then show ?thesis
    unfolding x y using n by simp
qed

lemma double_sub_within:
  assumes "lo \<le> n - m" and "n - m \<le> hi" and "1 / 10 ^ 9 \<le> lo" and "hi \<le> 10 ^ 9"
    and "lo' \<le> lo * (1 - 1 / 2 ^ 53)" and "hi * (1 + 1 / 2 ^ 53) \<le> hi'"
  shows "double_within True lo' hi' (double_sub (Finite False m) (Finite False n))"
proof -
  have "0 < lo"
    using assms(3) by (smt (verit) divide_pos_pos zero_less_power)
  then have neg: "m - n < 0"
    using assms(1) by linarith
  then have "double_sub (Finite False m) (Finite False n) = round_double True (n - m)"
    by (simp add: double_sub_def with_sign_def round_signed_def)
  then show ?thesis
    using assms by (simp only:) (rule round_double_within)
qed

lemma double_add_zero_within:
  assumes "double_within s lo hi y" and "1 / 10 ^ 9 \<le> lo" and "hi \<le> 10 ^ 9"
    and "lo' \<le> lo * (1 - 1 / 2 ^ 53)" and "hi * (1 + 1 / 2 ^ 53) \<le> hi'"
  shows "double_within s lo' hi' (double_add (Finite False 0) y)"
proof -
  obtain m where y: "y = Finite s m" "lo \<le> m" "m \<le> hi"
    using assms(1) by (auto simp: double_within_def split: double.splits)
  have "0 < lo"
    using assms(2) by (smt (verit) divide_pos_pos zero_less_power)
  then have m: "0 < m"
    using y by linarith
  then have "double_add (Finite False 0) (Finite s m) = round_double s m"
    by (cases s) (simp_all add: with_sign_def round_signed_def)
  then show ?thesis
    unfolding y using y(2,3) assms(2-5) by (simp only:) (rule round_double_within)
qed

lemma double_sin_within:
  assumes "lo \<le> sin a" and "sin a \<le> hi" and "1 / 10 ^ 9 \<le> lo" and "hi \<le> 10 ^ 9"
    and "lo' \<le> lo * (1 - 1 / 2 ^ 53)" and "hi * (1 + 1 / 2 ^ 53) \<le> hi'"
  shows "double_within False lo' hi' (double_sin (Finite False a))"
proof -
  have "0 < lo"
    using assms(3) by (smt (verit) divide_pos_pos zero_less_power)
  then have s: "0 < sin a"
    using assms(1) by linarith
  then have "a \<noteq> 0"
    by auto
  then have "double_sin (Finite False a) = round_double False (sin a)"
    using s by (simp add: with_sign_def round_signed_def)
  then show ?thesis
    using assms by (simp only:) (rule round_double_within)
qed

lemma double_within_exact: "lo \<le> m \<Longrightarrow> m \<le> hi \<Longrightarrow> double_within s lo hi (Finite s m)"
  by (simp add: double_within_def)

lemma double_within_negative:
  assumes "double_within True lo hi x"
  shows "is_finite x \<and> - hi \<le> real_of_double x \<and> real_of_double x \<le> - lo"
  using assms by (auto simp: double_within_def with_sign_def split: double.splits)

text \<open>
  The inputs of the scenario are the binary64 numbers nearest to its decimal constants.
\<close>

lemma scenario_inputs_binary64:
  "round_signed (1 / 10) = Finite False (3602879701896397 / 2 ^ 55)"
  "round_signed (94925 / 10 ^ 9) = Finite False (7004228724787517 / 2 ^ 66)"
  "round_signed (95948 / 10 ^ 9) = Finite False (442482050096071 / 2 ^ 62)"
  "double_div (d_pi binary64_arith) (Finite False 4) = Finite False (884279719003555 / 2 ^ 50)"
proof -
  have n: "1 / 2 ^ 1022 \<le> m \<Longrightarrow> m \<le> 2 ^ 1023 \<Longrightarrow> round_binary64 m = r
      \<Longrightarrow> round_double s m = Finite s r" for m r s
    using round_double_normal [of m s] by simp
  have "round_binary64 (1 / 10) = 3602879701896397 / 2 ^ 55"
    by (subst round_binary64_in_binade [where n = "- 4"])
       (simp_all add: power_int_def round_half_even_def Let_def power_divide)
  then have "round_double False (1 / 10) = Finite False (3602879701896397 / 2 ^ 55)"
    by (intro n) simp_all
  then show "round_signed (1 / 10) = Finite False (3602879701896397 / 2 ^ 55)"
    by (simp add: round_signed_def)
  have "round_binary64 (94925 / 10 ^ 9) = 7004228724787517 / 2 ^ 66"
    by (subst round_binary64_in_binade [where n = "- 14"])
       (simp_all add: power_int_def round_half_even_def Let_def power_divide)
  then have "round_double False (94925 / 10 ^ 9) = Finite False (7004228724787517 / 2 ^ 66)"
    by (intro n) simp_all
  then show "round_signed (94925 / 10 ^ 9) = Finite False (7004228724787517 / 2 ^ 66)"
    by (simp add: round_signed_def)
  have "round_binary64 (95948 / 10 ^ 9) = 442482050096071 / 2 ^ 62"
    by (subst round_binary64_in_binade [where n = "- 14"])
       (simp_all add: power_int_def round_half_even_def Let_def power_divide)
  then have "round_double False (95948 / 10 ^ 9) = Finite False (442482050096071 / 2 ^ 62)"
    by (intro n) simp_all
  then show "round_signed (95948 / 10 ^ 9) = Finite False (442482050096071 / 2 ^ 62)"
    by (simp add: round_signed_def)
  have "round_binary64 (884279719003555 / 2 ^ 48 / 4) = 884279719003555 / 2 ^ 50"
    by (subst round_binary64_in_binade [where n = "- 1"])
       (simp_all add: power_int_def round_half_even_def Let_def power_divide)
  then have "round_double False (884279719003555 / 2 ^ 48 / 4)
      = Finite False (884279719003555 / 2 ^ 50)"
    by (intro n) simp_all
  then show "double_div (d_pi binary64_arith) (Finite False 4)
      = Finite False (884279719003555 / 2 ^ 50)"
    by (simp add: binary64_ops)
qed

lemma sin_quarter_pi_binary64:
  "7071 / 10 ^ 4 \<le> sin (884279719003555 / 2 ^ 50 :: real)
   \<and> sin (884279719003555 / 2 ^ 50 :: real) \<le> 7072 / 10 ^ 4"
proof
  let ?a = "884279719003555 / 2 ^ 50 :: real"
  have "7071 / 10 ^ 4 \<le> ?a - ?a ^ 3 / 6 + ?a ^ 5 / 120 - ?a ^ 7 / 5040 + ?a ^ 9 / 362880
      - \<bar>?a\<bar> ^ 11 / 39916800"
    by (simp add: eval_nat_numeral)
  also have "\<dots> \<le> sin ?a"
    using sin_degree_9 [of ?a] by linarith
  finally show "7071 / 10 ^ 4 \<le> sin ?a" .
  have "sin ?a \<le> ?a - ?a ^ 3 / 6 + ?a ^ 5 / 120 - ?a ^ 7 / 5040 + ?a ^ 9 / 362880
      + \<bar>?a\<bar> ^ 11 / 39916800"
    using sin_degree_9 [of ?a] by linarith
  also have "\<dots> \<le> 7072 / 10 ^ 4"
    by (simp add: eval_nat_numeral)
  finally show "sin ?a \<le> 7072 / 10 ^ 4" .
qed

lemma scenario_sin_binary64:
  "double_within False (70709 / 10 ^ 5) (70721 / 10 ^ 5)
     (double_sin (Finite False (884279719003555 / 2 ^ 50)))"
  using sin_quarter_pi_binary64
  by (intro double_sin_within [where lo = "7071 / 10 ^ 4" and hi = "7072 / 10 ^ 4"]) simp_all

lemma scenario_length_binary64:
  "double_within False (14139 / 10 ^ 5) (14143 / 10 ^ 5) (length_m scenario_path_binary64)"
proof -
  have "double_within False (1 / 10) (1000001 / 10 ^ 7)
      (Finite False (3602879701896397 / 2 ^ 55))"
    by (rule double_within_exact) simp_all
  then have "double_within (False \<noteq> False) (14139 / 10 ^ 5) (14143 / 10 ^ 5)
      (double_div (Finite False (3602879701896397 / 2 ^ 55))
         (double_sin (Finite False (884279719003555 / 2 ^ 50))))"
    using scenario_sin_binary64 by (rule double_div_within) simp_all
  then show ?thesis
    by (simp only: scenario_path_binary64_def AcousticPath.simps simp_thms)
qed

lemma scenario_geometry_binary64:
  "double_within False (9996 / 10 ^ 5) (10002 / 10 ^ 5)
     (double_div (length_m scenario_path_binary64)
        (double_mul (Finite False 2) (double_sin (angle scenario_path_binary64))))"
proof -
  have a: "angle scenario_path_binary64 = Finite False (884279719003555 / 2 ^ 50)"
    by (simp only: scenario_path_binary64_def AcousticPath.simps)
  have "double_within False 2 2 (Finite False 2)"
    by (rule double_within_exact) simp_all
  then have "double_within (False \<noteq> False) (141417 / 10 ^ 5) (141443 / 10 ^ 5)
      (double_mul (Finite False 2) (double_sin (Finite False (884279719003555 / 2 ^ 50))))"
    using scenario_sin_binary64 by (rule double_mul_within) simp_all
  then have t: "double_within False (141417 / 10 ^ 5) (141443 / 10 ^ 5)
      (double_mul (Finite False 2) (double_sin (angle scenario_path_binary64)))"
    by (simp only: a simp_thms)
  have "double_within (False \<noteq> False) (9996 / 10 ^ 5) (10002 / 10 ^ 5)
     (double_div (length_m scenario_path_binary64)
        (double_mul (Finite False 2) (double_sin (angle scenario_path_binary64))))"
    using scenario_length_binary64 t by (rule double_div_within) simp_all
  then show ?thesis
    by (simp only: simp_thms)
qed

lemma scenario_timing_binary64:
  "double_within True (11230 / 10 ^ 2) (11234 / 10 ^ 2)
     (double_div
        (double_sub (t_upstream scenario_measurement_binary64)
           (t_downstream scenario_measurement_binary64))
        (double_mul (t_upstream scenario_measurement_binary64)
           (t_downstream scenario_measurement_binary64)))"
proof -
  let ?tu = "Finite False (7004228724787517 / 2 ^ 66)"
  let ?td = "Finite False (442482050096071 / 2 ^ 62)"
  have d: "double_within True (102289 / 10 ^ 11) (102311 / 10 ^ 11) (double_sub ?tu ?td)"
    by (rule double_sub_within [where lo = "10229 / 10 ^ 10" and hi = "10231 / 10 ^ 10"])
       simp_all
  have "double_within False (949249 / 10 ^ 10) (949251 / 10 ^ 10) ?tu"
    and "double_within False (959479 / 10 ^ 10) (959481 / 10 ^ 10) ?td"
    by (rule double_within_exact; simp)+
  then have "double_within (False \<noteq> False) (910779 / 10 ^ 14) (910791 / 10 ^ 14)
      (double_mul ?tu ?td)"
    by (rule double_mul_within) simp_all
  then have p: "double_within False (910779 / 10 ^ 14) (910791 / 10 ^ 14) (double_mul ?tu ?td)"
    by (simp only: simp_thms)
  have "double_within (True \<noteq> False) (11230 / 10 ^ 2) (11234 / 10 ^ 2)
      (double_div (double_sub ?tu ?td) (double_mul ?tu ?td))"
    using d p by (rule double_div_within) simp_all
  then show ?thesis
    by (simp only: scenario_measurement_binary64_def PathMeasurement.simps simp_thms)
qed

lemma scenario_velocity_binary64_within:
  "double_within True (1122 / 100) (1124 / 100) scenario_velocity_binary64"
proof -
  have "double_within (False \<noteq> True) (1122 / 100) (1124 / 100) scenario_velocity_binary64"
    unfolding scenario_velocity_binary64_def
    using scenario_geometry_binary64 scenario_timing_binary64
    by (rule double_mul_within) simp_all
  then show ?thesis
    by (simp only: simp_thms)
qed

lemma scenario_path_velocity_binary64:
  "calculate_path_velocity binary64_arith (Some scenario_path_binary64)
     (Some scenario_measurement_binary64) = scenario_velocity_binary64"
proof -
  have "\<not> double_le (t_upstream scenario_measurement_binary64) (Finite False 0)"
    and "\<not> double_le (t_downstream scenario_measurement_binary64) (Finite False 0)"
    by (simp_all add: scenario_measurement_binary64_def with_sign_def)
  moreover have "\<not> double_eq (double_sin (angle scenario_path_binary64)) (Finite False 0)"
    using scenario_sin_binary64
    by (auto simp: scenario_path_binary64_def double_within_def with_sign_def
        split: double.splits)
  ultimately show ?thesis
    using calculate_path_velocity_formula [of binary64_arith scenario_measurement_binary64
        scenario_path_binary64]
    by (simp only: binary64_ops scenario_velocity_binary64_def simp_thms)
qed

lemma scenario_area_binary64:
  "double_within False (7853 / 10 ^ 6) (7855 / 10 ^ 6)
     (spec_area binary64_arith (Finite False (3602879701896397 / 2 ^ 55)))"
proof -
  let ?d = "Finite False (3602879701896397 / 2 ^ 55)"
  let ?r = "double_div ?d (Finite False 2)"
  have "double_within False (1 / 10) (1000001 / 10 ^ 7) ?d"
    and two: "double_within False 2 2 (Finite False 2)"
    by (rule double_within_exact; simp)+
  then have "double_within (False \<noteq> False) (499999 / 10 ^ 7) (500001 / 10 ^ 7) ?r"
    by (rule double_div_within) simp_all
  then have r: "double_within False (499999 / 10 ^ 7) (500001 / 10 ^ 7) ?r"
    by (simp only: simp_thms)
  have "double_within False (314159 / 10 ^ 5) (31416 / 10 ^ 4)
      (Finite False (884279719003555 / 2 ^ 48))"
    by (rule double_within_exact) simp_all
  then have "double_within (False \<noteq> False) (157078 / 10 ^ 6) (157082 / 10 ^ 6)
      (double_mul (Finite False (884279719003555 / 2 ^ 48)) ?r)"
    using r by (rule double_mul_within) simp_all
  then have m: "double_within False (157078 / 10 ^ 6) (157082 / 10 ^ 6)
      (double_mul (Finite False (884279719003555 / 2 ^ 48)) ?r)"
    by (simp only: simp_thms)
  have "double_within (False \<noteq> False) (7853 / 10 ^ 6) (7855 / 10 ^ 6)
      (double_mul (double_mul (Finite False (884279719003555 / 2 ^ 48)) ?r) ?r)"
    using m r by (rule double_mul_within) simp_all
  then show ?thesis
    by (simp only: spec_area_def binary64_ops simp_thms)
qed

lemma scenario_flow_binary64_within:
  "double_within True (880 / 10 ^ 4) (884 / 10 ^ 4) scenario_flow_binary64"
proof -
  have "double_within False 1 1 (Finite False 1)"
    by (rule double_within_exact) simp_all
  then have "double_within (False \<noteq> True) (11219 / 1000) (11241 / 1000)
      (double_mul (Finite False 1) scenario_velocity_binary64)"
    using scenario_velocity_binary64_within by (rule double_mul_within) simp_all
  then have "double_within True (11219 / 1000) (11241 / 1000)
      (double_mul (Finite False 1) scenario_velocity_binary64)"
    by (simp only: simp_thms)
  then have w: "double_within True (11218 / 1000) (11242 / 1000)
      (double_add (Finite False 0) (double_mul (Finite False 1) scenario_velocity_binary64))"
    by (rule double_add_zero_within) simp_all
  have "double_within (False \<noteq> True) (880 / 10 ^ 4) (884 / 10 ^ 4) scenario_flow_binary64"
    unfolding scenario_flow_binary64_def
    using scenario_area_binary64 w by (rule double_mul_within) simp_all
  then show ?thesis
    by (simp only: simp_thms)
qed

lemma scenario_run_binary64:
  "calculate_flow_rate binary64_arith (Some scenario_config_binary64)
     (Some [scenario_measurement_binary64]) (Some 1) caller_heap
   = Inr (0, scenario_heap_binary64)"
proof -
  have v: "spec_velocities binary64_arith [scenario_path_binary64]
      [scenario_measurement_binary64] (Suc 0) = [scenario_velocity_binary64]"
    by (simp add: spec_velocities_def scenario_path_velocity_binary64)
  have wt: "weight scenario_path_binary64 = Finite False 1"
    by (simp add: scenario_path_binary64_def)
  have w: "spec_weighted_sum binary64_arith [scenario_path_binary64]
      [scenario_velocity_binary64] (Suc 0)
      = double_add (Finite False 0) (double_mul (Finite False 1) scenario_velocity_binary64)"
    by (simp add: spec_weighted_sum_def binary64_ops wt)
  have q: "d_mul binary64_arith
        (spec_area binary64_arith (Finite False (3602879701896397 / 2 ^ 55)))
        (double_add (Finite False 0) (double_mul (Finite False 1) scenario_velocity_binary64))
      = scenario_flow_binary64"
    by (simp only: scenario_flow_binary64_def binary64_ops)
  have d: "pipe_diameter scenario_config_binary64 = Finite False (3602879701896397 / 2 ^ 55)"
    by (simp add: scenario_config_binary64_def)
  let ?h = "caller_heap :: double heap"
  have "calculate_flow_rate binary64_arith (Some scenario_config_binary64)
     (Some [scenario_measurement_binary64]) (Some 1) ?h
     = Inr (0, ?h\<lparr>objs := AList.update 1
               (Result (\<lparr> path_velocities = Indeterminate, volumetric_flow = Indeterminate \<rparr>
                  \<lparr>path_velocities := Val (Some (fresh_addr ?h)),
                  volumetric_flow := Val (d_mul binary64_arith
                    (spec_area binary64_arith (pipe_diameter scenario_config_binary64))
                    (spec_weighted_sum binary64_arith [scenario_path_binary64]
                       (spec_velocities binary64_arith [scenario_path_binary64]
                          [scenario_measurement_binary64]
                          (unat (num_paths scenario_config_binary64)))
                       (unat (num_paths scenario_config_binary64))))\<rparr>))
               (objs ?h)
             @ [(fresh_addr ?h, Doubles (map Val
                  (spec_velocities binary64_arith [scenario_path_binary64]
                     [scenario_measurement_binary64]
                     (unat (num_paths scenario_config_binary64)))))],
           malloc_script := tl (malloc_script ?h)\<rparr>)"
    by (rule calculate_flow_rate_success)
       (simp_all add: scenario_config_binary64_def caller_heap_def malloc_succeeds_def)
  moreover have n: "unat (num_paths scenario_config_binary64) = Suc 0"
    by (simp add: scenario_config_binary64_def)
  ultimately show ?thesis
    unfolding n v w d q
    by (simp add: caller_heap_def scenario_heap_binary64_def fresh_addr_def)
qed

subsection \<open>The rounding error of the integration\<close>

text \<open>
  An operation with a finite result has finite operands, and its result differs from the
  exact one by at most the unit roundoff times the magnitude of the exact result, plus
  half the spacing of the subnormal numbers.
\<close>

lemma with_sign_diff: "\<bar>with_sign s r - with_sign s m\<bar> = \<bar>r - m\<bar>"
  by (auto simp: with_sign_def)

lemma round_double_error:
  assumes "is_finite (round_double s m)"
  shows "\<bar>real_of_double (round_double s m) - with_sign s m\<bar>
    \<le> unit_roundoff * \<bar>m\<bar> + underflow_unit"
proof -
  have "round_double s m = Finite s (round_magnitude m)"
    using assms by (simp add: round_double_def Let_def split: if_splits)
  then have "\<bar>real_of_double (round_double s m) - with_sign s m\<bar> = \<bar>round_magnitude m - m\<bar>"
    by (simp only: real_of_double.simps with_sign_diff)
  then show ?thesis
    using round_magnitude_close [of m] by (simp add: unit_roundoff_def underflow_unit_def)
qed

lemma round_signed_error:
  assumes "is_finite (round_signed x)"
  shows "\<bar>real_of_double (round_signed x) - x\<bar> \<le> unit_roundoff * \<bar>x\<bar> + underflow_unit"
proof -
  have "with_sign (x < 0) \<bar>x\<bar> = x"
    by (simp add: with_sign_def)
  then show ?thesis
    using round_double_error [of "x < 0" "\<bar>x\<bar>"] assms by (simp add: round_signed_def)
qed

lemma double_mul_error:
  assumes "is_finite (double_mul a b)"
  shows "is_finite a \<and> is_finite b
    \<and> \<bar>real_of_double (double_mul a b) - real_of_double a * real_of_double b\<bar>
      \<le> unit_roundoff * \<bar>real_of_double a * real_of_double b\<bar> + underflow_unit"
proof (cases a; cases b)
  fix s m t n
  assume a: "a = Finite s m" and b: "b = Finite t n"
  have "with_sign (s \<noteq> t) (m * n) = with_sign s m * with_sign t n"
    and "\<bar>m * n\<bar> = \<bar>with_sign s m * with_sign t n\<bar>"
    by (auto simp: with_sign_def abs_mult)
  then show ?thesis
    using round_double_error [of "s \<noteq> t" "m * n"] assms by (simp add: a b)
qed (use assms in \<open>auto split: if_splits\<close>)

lemma double_add_error:
  assumes "is_finite (double_add a b)"
  shows "is_finite a \<and> is_finite b
    \<and> \<bar>real_of_double (double_add a b) - (real_of_double a + real_of_double b)\<bar>
      \<le> unit_roundoff * \<bar>real_of_double a + real_of_double b\<bar> + underflow_unit"
proof (cases a; cases b)
  fix s m t n
  assume a: "a = Finite s m" and b: "b = Finite t n"
  let ?x = "with_sign s m + with_sign t n"
  show ?thesis
  proof (cases "?x = 0")
    case True
    then show ?thesis
      by (simp add: a b with_sign_def unit_roundoff_def underflow_unit_def)
  next
    case False
    then have e: "double_add a b = round_signed ?x"
      by (simp add: a b)
    then show ?thesis
      using round_signed_error [of ?x] assms by (simp add: a b)
  qed
qed (use assms in \<open>auto split: if_splits\<close>)

lemma rounding_step:
  fixes U a T c e r ax eta :: real
  assumes "1 \<le> U" and "U \<le> a" and "0 \<le> eta" and "0 \<le> ax"
    and ih: "e \<le> (a - 1) * T + c * eta"
    and r: "r \<le> U * e + (U - 1) * T + (U * U - 1) * ax + (U + 1) * eta"
  shows "r \<le> (U * a - 1) * (T + ax) + (U * c + 3 * a) * eta"
proof -
  have "U * e \<le> U * ((a - 1) * T + c * eta)"
    using ih assms(1) by (intro mult_left_mono) simp_all
  then have 1: "U * e \<le> U * a * T - U * T + U * c * eta"
    by (simp add: algebra_simps)
  have "U * U \<le> U * a"
    using assms(1,2) by (intro mult_left_mono) simp_all
  then have "(U * U - 1) * ax \<le> (U * a - 1) * ax"
    using assms(4) by (intro mult_right_mono) simp_all
  then have 2: "U * U * ax - ax \<le> U * a * ax - ax"
    by (simp add: algebra_simps)
  have "(U + 1) * eta \<le> (3 * a) * eta"
    using assms(1,2,3) by (intro mult_right_mono) simp_all
  then have 3: "U * eta + eta \<le> 3 * a * eta"
    by (simp add: algebra_simps)
  have "r \<le> U * e + U * T - T + U * U * ax - ax + U * eta + eta"
    using r by (simp add: algebra_simps)
  with 1 2 3 have "r \<le> U * a * T - T + U * a * ax - ax + U * c * eta + 3 * a * eta"
    by linarith
  then show ?thesis
    by (simp add: algebra_simps)
qed

text \<open>
  The weighted sum of \<open>n\<close> velocities and the flow, against their exact values, by
  induction on \<open>n\<close>.
\<close>

lemma error_accumulate:
  fixes u al be sp e T ax r eta :: real
  assumes "0 \<le> u"
    and al: "al \<le> u * ax + eta" and be: "be \<le> u * sp + eta"
    and sp: "sp \<le> e + T + al + ax" and r: "r \<le> be + e + al"
  shows "r \<le> (1 + u) * e + ((1 + u) - 1) * T + ((1 + u) * (1 + u) - 1) * ax
    + ((1 + u) + 1) * eta"
proof -
  have "u * sp \<le> u * (e + T + al + ax)"
    using sp assms(1) by (intro mult_left_mono) simp_all
  then have 1: "u * sp \<le> u * e + u * T + u * al + u * ax"
    by (simp add: algebra_simps)
  have "(1 + u) * al \<le> (1 + u) * (u * ax + eta)"
    using al assms(1) by (intro mult_left_mono) simp_all
  then have 2: "al + u * al \<le> u * ax + u * u * ax + eta + u * eta"
    by (simp add: algebra_simps)
  from be r 1 2 have "r \<le> e + u * e + u * T + 2 * (u * ax) + u * u * ax + 2 * eta + u * eta"
    by linarith
  then show ?thesis
    by (simp add: algebra_simps)
qed

lemma spec_weighted_sum_Suc:
  "spec_weighted_sum fa ps vs (Suc n)
   = d_add fa (spec_weighted_sum fa ps vs n) (d_mul fa (weight (ps ! n)) (vs ! n))"
  by (simp add: spec_weighted_sum_def)

lemma weighted_sum_error:
  assumes "is_finite (spec_weighted_sum binary64_arith ps vs n)"
  shows "\<bar>real_of_double (spec_weighted_sum binary64_arith ps vs n)
           - (\<Sum>i<n. real_of_double (weight (ps ! i)) * real_of_double (vs ! i))\<bar>
    \<le> ((1 + unit_roundoff) ^ (n + 1) - 1)
        * (\<Sum>i<n. \<bar>real_of_double (weight (ps ! i)) * real_of_double (vs ! i)\<bar>)
      + 3 * real n * (1 + unit_roundoff) ^ n * underflow_unit"
  using assms
proof (induction n)
  case 0
  then show ?case
    by (simp add: spec_weighted_sum_def binary64_ops with_sign_def)
next
  case (Suc n)
  let ?x = "\<lambda>i. real_of_double (weight (ps ! i)) * real_of_double (vs ! i)"
  let ?S = "spec_weighted_sum binary64_arith ps vs n"
  let ?P = "double_mul (weight (ps ! n)) (vs ! n)"
  let ?U = "1 + unit_roundoff"
  have u: "0 \<le> unit_roundoff" and eta: "0 \<le> underflow_unit"
    by (simp_all add: unit_roundoff_def underflow_unit_def)
  have step: "spec_weighted_sum binary64_arith ps vs (Suc n) = double_add ?S ?P"
    by (simp only: spec_weighted_sum_Suc binary64_ops)
  with Suc.prems have fin: "is_finite (double_add ?S ?P)"
    by simp
  then have fS: "is_finite ?S" and fP: "is_finite ?P"
    and be: "\<bar>real_of_double (double_add ?S ?P) - (real_of_double ?S + real_of_double ?P)\<bar>
      \<le> unit_roundoff * \<bar>real_of_double ?S + real_of_double ?P\<bar> + underflow_unit"
    using double_add_error [of ?S ?P] by simp_all
  have al: "\<bar>real_of_double ?P - ?x n\<bar> \<le> unit_roundoff * \<bar>?x n\<bar> + underflow_unit"
    using double_mul_error [OF fP] by simp
  have ih: "\<bar>real_of_double ?S - (\<Sum>i<n. ?x i)\<bar>
      \<le> (?U ^ (n + 1) - 1) * (\<Sum>i<n. \<bar>?x i\<bar>) + (3 * real n * ?U ^ n) * underflow_unit"
    using Suc.IH [OF fS] by simp
  have X: "\<bar>\<Sum>i<n. ?x i\<bar> \<le> (\<Sum>i<n. \<bar>?x i\<bar>)"
    by (rule sum_abs)
  have sp: "\<bar>real_of_double ?S + real_of_double ?P\<bar>
      \<le> \<bar>real_of_double ?S - (\<Sum>i<n. ?x i)\<bar> + (\<Sum>i<n. \<bar>?x i\<bar>)
        + \<bar>real_of_double ?P - ?x n\<bar> + \<bar>?x n\<bar>"
    using X by linarith
  have r: "\<bar>real_of_double (double_add ?S ?P) - ((\<Sum>i<n. ?x i) + ?x n)\<bar>
      \<le> \<bar>real_of_double (double_add ?S ?P) - (real_of_double ?S + real_of_double ?P)\<bar>
        + \<bar>real_of_double ?S - (\<Sum>i<n. ?x i)\<bar> + \<bar>real_of_double ?P - ?x n\<bar>"
    by linarith
  have acc: "\<bar>real_of_double (double_add ?S ?P) - ((\<Sum>i<n. ?x i) + ?x n)\<bar>
      \<le> ?U * \<bar>real_of_double ?S - (\<Sum>i<n. ?x i)\<bar> + (?U - 1) * (\<Sum>i<n. \<bar>?x i\<bar>)
        + (?U * ?U - 1) * \<bar>?x n\<bar> + (?U + 1) * underflow_unit"
    by (rule error_accumulate [OF u al be sp r])
  have U1: "1 \<le> ?U"
    using u by simp
  have Ua: "?U \<le> ?U ^ (n + 1)"
    using U1 by (metis power_increasing le_add2 power_one_right)
  have "\<bar>real_of_double (double_add ?S ?P) - ((\<Sum>i<n. ?x i) + ?x n)\<bar>
      \<le> (?U * ?U ^ (n + 1) - 1) * ((\<Sum>i<n. \<bar>?x i\<bar>) + \<bar>?x n\<bar>)
        + (?U * (3 * real n * ?U ^ n) + 3 * ?U ^ (n + 1)) * underflow_unit"
    by (rule rounding_step [OF U1 Ua eta _ ih acc]) simp
  moreover have "?U * ?U ^ (n + 1) = ?U ^ (Suc n + 1)"
    by simp
  moreover have "?U * (3 * real n * ?U ^ n) + 3 * ?U ^ (n + 1)
      = 3 * real (Suc n) * ?U ^ Suc n"
    by (simp add: algebra_simps)
  ultimately show ?case
    by (simp only: step sum.lessThan_Suc)
qed

lemma product_error:
  fixes u A s X E T f eta :: real
  assumes "0 \<le> u"
    and f: "\<bar>f - A * s\<bar> \<le> u * \<bar>A * s\<bar> + eta" and s: "\<bar>s - X\<bar> \<le> E" and X: "\<bar>X\<bar> \<le> T"
  shows "\<bar>f - A * X\<bar> \<le> \<bar>A\<bar> * ((1 + u) * E + u * T) + eta"
proof -
  have "\<bar>s\<bar> \<le> T + E"
    using s X by linarith
  then have "\<bar>A\<bar> * \<bar>s\<bar> \<le> \<bar>A\<bar> * (T + E)"
    by (intro mult_left_mono) simp_all
  then have "u * (\<bar>A\<bar> * \<bar>s\<bar>) \<le> u * (\<bar>A\<bar> * (T + E))"
    using assms(1) by (rule mult_left_mono)
  then have 1: "u * \<bar>A * s\<bar> \<le> u * \<bar>A\<bar> * T + u * \<bar>A\<bar> * E"
    by (simp add: abs_mult algebra_simps)
  have "\<bar>A * s - A * X\<bar> = \<bar>A\<bar> * \<bar>s - X\<bar>"
    by (simp add: abs_mult right_diff_distrib [symmetric])
  also have "\<dots> \<le> \<bar>A\<bar> * E"
    using s by (intro mult_left_mono) simp_all
  finally have 2: "\<bar>A * s - A * X\<bar> \<le> \<bar>A\<bar> * E" .
  have "\<bar>f - A * X\<bar> \<le> \<bar>f - A * s\<bar> + \<bar>A * s - A * X\<bar>"
    by linarith
  with f 1 2 have "\<bar>f - A * X\<bar> \<le> u * \<bar>A\<bar> * T + u * \<bar>A\<bar> * E + eta + \<bar>A\<bar> * E"
    by linarith
  then show ?thesis
    by (simp add: algebra_simps)
qed

lemma flow_of_velocities_error:
  assumes "is_finite (flow_of_velocities binary64_arith d ps vs)"
  shows "\<bar>real_of_double (flow_of_velocities binary64_arith d ps vs)
           - real_of_double (spec_area binary64_arith d)
             * (\<Sum>i<length vs. real_of_double (weight (ps ! i)) * real_of_double (vs ! i))\<bar>
    \<le> flow_rounding_bound (length vs) \<bar>real_of_double (spec_area binary64_arith d)\<bar>
        (\<Sum>i<length vs. \<bar>real_of_double (weight (ps ! i)) * real_of_double (vs ! i)\<bar>)"
proof -
  let ?n = "length vs"
  let ?x = "\<lambda>i. real_of_double (weight (ps ! i)) * real_of_double (vs ! i)"
  let ?A = "spec_area binary64_arith d"
  let ?S = "spec_weighted_sum binary64_arith ps vs ?n"
  let ?U = "1 + unit_roundoff"
  let ?E = "(?U ^ (?n + 1) - 1) * (\<Sum>i<?n. \<bar>?x i\<bar>) + 3 * real ?n * ?U ^ ?n * underflow_unit"
  have u: "0 \<le> unit_roundoff"
    by (simp add: unit_roundoff_def)
  have flow: "flow_of_velocities binary64_arith d ps vs = double_mul ?A ?S"
    by (simp only: flow_of_velocities_def binary64_ops)
  with assms have "is_finite (double_mul ?A ?S)"
    by simp
  then have fS: "is_finite ?S"
    and f: "\<bar>real_of_double (double_mul ?A ?S) - real_of_double ?A * real_of_double ?S\<bar>
      \<le> unit_roundoff * \<bar>real_of_double ?A * real_of_double ?S\<bar> + underflow_unit"
    using double_mul_error [of ?A ?S] by simp_all
  have s: "\<bar>real_of_double ?S - (\<Sum>i<?n. ?x i)\<bar> \<le> ?E"
    by (rule weighted_sum_error [OF fS])
  have X: "\<bar>\<Sum>i<?n. ?x i\<bar> \<le> (\<Sum>i<?n. \<bar>?x i\<bar>)"
    by (rule sum_abs)
  have "\<bar>real_of_double (double_mul ?A ?S) - real_of_double ?A * (\<Sum>i<?n. ?x i)\<bar>
      \<le> \<bar>real_of_double ?A\<bar> * (?U * ?E + unit_roundoff * (\<Sum>i<?n. \<bar>?x i\<bar>)) + underflow_unit"
    by (rule product_error [OF u f s X])
  moreover have "?U * ?E + unit_roundoff * (\<Sum>i<?n. \<bar>?x i\<bar>)
      = (?U ^ (?n + 2) - 1) * (\<Sum>i<?n. \<bar>?x i\<bar>) + 3 * real ?n * ?U ^ (?n + 1) * underflow_unit"
    by (simp add: algebra_simps)
  ultimately show ?thesis
    by (simp only: flow flow_rounding_bound_def)
qed

lemma flow_of_velocities_scale_binary64:
  assumes len: "length vs' = length vs"
    and f: "is_finite (flow_of_velocities binary64_arith d ps vs)"
    and f': "is_finite (flow_of_velocities binary64_arith d ps vs')"
  shows "\<bar>real_of_double (flow_of_velocities binary64_arith d ps vs')
           - k * real_of_double (flow_of_velocities binary64_arith d ps vs)\<bar>
    \<le> flow_rounding_bound (length vs) \<bar>real_of_double (spec_area binary64_arith d)\<bar>
          (\<Sum>i<length vs. \<bar>real_of_double (weight (ps ! i)) * real_of_double (vs' ! i)\<bar>)
      + \<bar>k\<bar> * flow_rounding_bound (length vs) \<bar>real_of_double (spec_area binary64_arith d)\<bar>
          (\<Sum>i<length vs. \<bar>real_of_double (weight (ps ! i)) * real_of_double (vs ! i)\<bar>)
      + \<bar>real_of_double (spec_area binary64_arith d)\<bar>
        * (\<Sum>i<length vs. \<bar>real_of_double (weight (ps ! i))
             * (real_of_double (vs' ! i) - k * real_of_double (vs ! i))\<bar>)"
proof -
  let ?n = "length vs"
  let ?w = "\<lambda>i. real_of_double (weight (ps ! i))"
  let ?A = "real_of_double (spec_area binary64_arith d)"
  let ?F = "real_of_double (flow_of_velocities binary64_arith d ps vs)"
  let ?F' = "real_of_double (flow_of_velocities binary64_arith d ps vs')"
  let ?X = "\<Sum>i<?n. ?w i * real_of_double (vs ! i)"
  let ?X' = "\<Sum>i<?n. ?w i * real_of_double (vs' ! i)"
  let ?T = "\<Sum>i<?n. \<bar>?w i * real_of_double (vs ! i)\<bar>"
  let ?T' = "\<Sum>i<?n. \<bar>?w i * real_of_double (vs' ! i)\<bar>"
  let ?D = "\<Sum>i<?n. \<bar>?w i * (real_of_double (vs' ! i) - k * real_of_double (vs ! i))\<bar>"
  have 1: "\<bar>?F' - ?A * ?X'\<bar> \<le> flow_rounding_bound ?n \<bar>?A\<bar> ?T'"
    using flow_of_velocities_error [OF f'] by (simp only: len)
  have "\<bar>?F - ?A * ?X\<bar> \<le> flow_rounding_bound ?n \<bar>?A\<bar> ?T"
    by (rule flow_of_velocities_error [OF f])
  then have "\<bar>k\<bar> * \<bar>?F - ?A * ?X\<bar> \<le> \<bar>k\<bar> * flow_rounding_bound ?n \<bar>?A\<bar> ?T"
    by (intro mult_left_mono) simp_all
  moreover have "\<bar>k\<bar> * \<bar>?F - ?A * ?X\<bar> = \<bar>k * ?F - ?A * (k * ?X)\<bar>"
    by (simp add: abs_mult [symmetric] algebra_simps)
  ultimately have 2: "\<bar>k * ?F - ?A * (k * ?X)\<bar> \<le> \<bar>k\<bar> * flow_rounding_bound ?n \<bar>?A\<bar> ?T"
    by simp
  have "?X' - k * ?X = (\<Sum>i<?n. ?w i * (real_of_double (vs' ! i) - k * real_of_double (vs ! i)))"
    by (simp add: sum_subtractf sum_distrib_left algebra_simps)
  then have "\<bar>?X' - k * ?X\<bar> \<le> ?D"
    by (simp only: sum_abs)
  then have "\<bar>?A\<bar> * \<bar>?X' - k * ?X\<bar> \<le> \<bar>?A\<bar> * ?D"
    by (intro mult_left_mono) simp_all
  moreover have "\<bar>?A\<bar> * \<bar>?X' - k * ?X\<bar> = \<bar>?A * ?X' - ?A * (k * ?X)\<bar>"
    by (simp add: abs_mult [symmetric] algebra_simps)
  ultimately have 3: "\<bar>?A * ?X' - ?A * (k * ?X)\<bar> \<le> \<bar>?A\<bar> * ?D"
    by simp
  have "\<bar>?F' - k * ?F\<bar>
      \<le> \<bar>?F' - ?A * ?X'\<bar> + \<bar>k * ?F - ?A * (k * ?X)\<bar> + \<bar>?A * ?X' - ?A * (k * ?X)\<bar>"
    by linarith
  with 1 2 3 show ?thesis
    by linarith
qed

lemma runs_scale_binary64:
  assumes r1: "calculate_flow_rate binary64_arith (Some c) (Some ms1) (Some r1) h1 = Inr (0, h1')"
    and r2: "calculate_flow_rate binary64_arith (Some c) (Some ms2) (Some r2) h2 = Inr (0, h2')"
    and ps: "paths c = Some ps"
    and s1: "read_result h1' r1 = Some (map Val vs1, Val q1)"
    and s2: "read_result h2' r2 = Some (map Val vs2, Val q2)"
    and f1: "is_finite q1" and f2: "is_finite q2"
  shows "\<bar>real_of_double q2 - k * real_of_double q1\<bar>
    \<le> flow_rounding_bound (length vs1)
          \<bar>real_of_double (spec_area binary64_arith (pipe_diameter c))\<bar>
          (\<Sum>i<length vs1. \<bar>real_of_double (weight (ps ! i)) * real_of_double (vs2 ! i)\<bar>)
      + \<bar>k\<bar> * flow_rounding_bound (length vs1)
          \<bar>real_of_double (spec_area binary64_arith (pipe_diameter c))\<bar>
          (\<Sum>i<length vs1. \<bar>real_of_double (weight (ps ! i)) * real_of_double (vs1 ! i)\<bar>)
      + \<bar>real_of_double (spec_area binary64_arith (pipe_diameter c))\<bar>
        * (\<Sum>i<length vs1. \<bar>real_of_double (weight (ps ! i))
             * (real_of_double (vs2 ! i) - k * real_of_double (vs1 ! i))\<bar>)"
proof -
  have 1: "length vs1 = unat (num_paths c)"
    and q1: "q1 = flow_of_velocities binary64_arith (pipe_diameter c) ps vs1"
    using stored_velocities_and_flow [OF r1 ps s1] by blast+
  have 2: "length vs2 = unat (num_paths c)"
    and q2: "q2 = flow_of_velocities binary64_arith (pipe_diameter c) ps vs2"
    using stored_velocities_and_flow [OF r2 ps s2] by blast+
  have len: "length vs2 = length vs1"
    using 1 2 by simp
  show ?thesis
    unfolding q1 q2
    using len f1 f2 unfolding q1 q2 by (rule flow_of_velocities_scale_binary64)
qed

section \<open>Properties\<close>

text \<open>
  C1. \<^verbatim>\<open>calculate_path_velocity\<close> returns \<^verbatim>\<open>0.0\<close> when either reference is absent;
  with both present it returns \<^verbatim>\<open>0.0\<close> when \<^verbatim>\<open>t_upstream <= 0\<close> or
  \<^verbatim>\<open>t_downstream <= 0\<close>, whatever the angle is, and when \<^verbatim>\<open>sin(angle) == 0\<close>, whatever
  the times are; and when none of the three guards holds (in particular when both times
  are greater than 0 and the sine is not 0) it returns
  \<^verbatim>\<open>(length / (2.0 * sin(angle))) * ((t_upstream - t_downstream) / (t_upstream * t_downstream))\<close>.
  The comparisons are those of the arithmetic of \<^verbatim>\<open>double\<close>, so \<^verbatim>\<open>==\<close> is its exact
  equality. Every guard returns the same value, so the order in which the source tests
  them shows only in that an earlier guard does not depend on what a later one reads.
\<close>

theorem calculate_path_velocity_guards:
  "(path = None \<or> measurement = None \<longrightarrow>
      calculate_path_velocity fa path measurement = d_zero fa)
   \<and> (d_le fa (t_upstream m) (d_zero fa) \<or> d_le fa (t_downstream m) (d_zero fa) \<longrightarrow>
      calculate_path_velocity fa (Some p) (Some m) = d_zero fa)
   \<and> (d_eq fa (d_sin fa (angle p)) (d_zero fa) \<longrightarrow>
      calculate_path_velocity fa (Some p) (Some m) = d_zero fa)
   \<and> (\<not> d_le fa (t_upstream m) (d_zero fa) \<and> \<not> d_le fa (t_downstream m) (d_zero fa)
        \<and> \<not> d_eq fa (d_sin fa (angle p)) (d_zero fa) \<longrightarrow>
      calculate_path_velocity fa (Some p) (Some m) =
        d_mul fa (d_div fa (length_m p) (d_mul fa (d_two fa) (d_sin fa (angle p))))
          (d_div fa (d_sub fa (t_upstream m) (t_downstream m))
             (d_mul fa (t_upstream m) (t_downstream m))))"
  by (auto simp: calculate_path_velocity_def Let_def split: option.splits)

theorem calculate_path_velocity_guards_witness:
  "calculate_path_velocity real_arith None (Some \<lparr> t_upstream = 2, t_downstream = 1 \<rparr>) = 0
   \<and> calculate_path_velocity real_arith (Some upright_path) None = 0
   \<and> calculate_path_velocity real_arith (Some upright_path)
        (Some \<lparr> t_upstream = 0, t_downstream = 1 \<rparr>) = 0
   \<and> calculate_path_velocity real_arith (Some upright_path)
        (Some \<lparr> t_upstream = 2, t_downstream = - 1 \<rparr>) = 0
   \<and> calculate_path_velocity real_arith (Some (upright_path\<lparr> angle := 0 \<rparr>))
        (Some \<lparr> t_upstream = 2, t_downstream = 1 \<rparr>) = 0
   \<and> calculate_path_velocity real_arith (Some upright_path)
        (Some \<lparr> t_upstream = 2, t_downstream = 1 \<rparr>) = 1"
  using
    calculate_path_velocity_guards [of None "Some \<lparr> t_upstream = 2, t_downstream = 1 \<rparr>" real_arith]
    calculate_path_velocity_guards [of "Some upright_path" None real_arith]
    calculate_path_velocity_guards [of _ _ real_arith "\<lparr> t_upstream = 0, t_downstream = 1 \<rparr>"
      upright_path]
    calculate_path_velocity_guards [of _ _ real_arith "\<lparr> t_upstream = 2, t_downstream = - 1 \<rparr>"
      upright_path]
    calculate_path_velocity_guards [of _ _ real_arith "\<lparr> t_upstream = 2, t_downstream = 1 \<rparr>"
      "upright_path\<lparr> angle := 0 \<rparr>"]
    calculate_path_velocity_guards [of _ _ real_arith "\<lparr> t_upstream = 2, t_downstream = 1 \<rparr>"
      upright_path]
  by (simp add: real_arith_def upright_path_def)

text \<open>
  C2. When the configuration and the measurements are present, the path count is not
  zero and the paths are present (with at least that many paths and measurements, a
  result object to write to, and storage for the velocities), \<^verbatim>\<open>calculate_flow_rate\<close>
  returns 0 and the caller reads through the result: the velocity of every path below
  \<^verbatim>\<open>num_paths\<close>, each computed by \<^verbatim>\<open>calculate_path_velocity\<close> from the path and the
  measurement of its index, in index order and exactly \<^verbatim>\<open>num_paths\<close> of them; and the
  flow, which is the area \<^verbatim>\<open>M_PI * radius * radius\<close> times the sum of the weighted
  velocities accumulated from \<^verbatim>\<open>0.0\<close> in the same order. This holds for every arithmetic
  of \<^verbatim>\<open>double\<close>.
\<close>

theorem calculate_flow_rate_integrates:
  assumes "num_paths c \<noteq> 0" and "paths c = Some ps"
    and "unat (num_paths c) \<le> length ps" and "unat (num_paths c) \<le> length ms"
    and "map_of (objs h) r = Some (Result res)" and "malloc_succeeds h"
  shows "\<exists>h'. calculate_flow_rate fa (Some c) (Some ms) (Some r) h = Inr (0, h')
    \<and> read_result h' r =
        Some (map Val (spec_velocities fa ps ms (unat (num_paths c))),
              Val (d_mul fa (spec_area fa (pipe_diameter c))
                     (spec_weighted_sum fa ps (spec_velocities fa ps ms (unat (num_paths c)))
                        (unat (num_paths c)))))
    \<and> length (spec_velocities fa ps ms (unat (num_paths c))) = unat (num_paths c)"
proof -
  have ne: "r \<noteq> fresh_addr h"
    using assms(5) fresh_addr_new [of h] by auto
  have rin: "r \<in> fst ` set (objs h)"
    using assms(5) by (metis map_of_eq_None_iff option.distinct(1))
  have anew: "fresh_addr h \<notin> fst ` set (AList.update r x (objs h))" for x
    using fresh_addr_new [of h] rin by (simp add: keys_update_in map_of_eq_None_iff)
  show ?thesis
    unfolding calculate_flow_rate_success [OF assms]
    using ne anew
    by (simp add: read_result_def AList.update_conv' map_add_def spec_velocities_def
        fresh_addr_new)
qed

theorem calculate_flow_rate_integrates_witness:
  "num_paths two_path_config \<noteq> 0 \<and> malloc_succeeds caller_heap
   \<and> (\<exists>h'. calculate_flow_rate real_arith (Some two_path_config)
              (Some two_path_measurements) (Some 1) caller_heap = Inr (0, h')
          \<and> read_result h' 1 = Some ([Val 1, Val (- 1)], Val (pi / 2)))"
  using calculate_flow_rate_integrates [of two_path_config
      two_paths two_path_measurements caller_heap 1
      "\<lparr> path_velocities = Indeterminate, volumetric_flow = Indeterminate \<rparr>" real_arith]
  by (simp add: two_path_config_def two_paths_def two_path_measurements_def caller_heap_def
      malloc_succeeds_def spec_velocities_def spec_weighted_sum_def spec_area_def
      calculate_path_velocity_def real_arith_def upt_2 sin_30)

text \<open>
  C3, as stated, fails: with a configuration and measurements that are no configuration
  error, \<^verbatim>\<open>calculate_flow_rate\<close> returns \<open>-1\<close> when the result reference is absent, and
  \<^verbatim>\<open>flowmeter_process\<close> returns \<^verbatim>\<open>NULL\<close> when \<^verbatim>\<open>malloc\<close> fails.
\<close>

theorem failure_without_configuration_error:
  "\<not> configuration_error (Some two_path_config) (Some two_path_measurements)
   \<and> calculate_flow_rate real_arith (Some two_path_config) (Some two_path_measurements) None
       caller_heap = Inr (- 1, caller_heap)
   \<and> flowmeter_process real_arith (Some two_path_config) (Some two_path_measurements)
       \<lparr> objs = [], malloc_script = [False] \<rparr>
     = Inr (None, \<lparr> objs = [], malloc_script = [] \<rparr>)"
  by (simp add: configuration_error_def two_path_config_def two_paths_def
      calculate_flow_rate_def flowmeter_process_def malloc_def malloc_succeeds_def Let_def)

text \<open>
  C3, amended. For sequences of at least \<^verbatim>\<open>num_paths\<close> elements:
  \<^verbatim>\<open>calculate_flow_rate\<close>, given an absent or valid result reference, returns \<open>-1\<close>
  exactly when there is a configuration error, the result reference is absent or the
  allocation of the velocity storage fails, and returns 0 otherwise;
  \<^verbatim>\<open>flowmeter_process\<close> returns \<^verbatim>\<open>NULL\<close> exactly when there is a configuration error or
  one of its two allocations fails, and then the heap holds the objects it held before
  the call; otherwise it returns a result.
\<close>

theorem failure_signalled_exactly_when:
  assumes "sequences_hold config measurements"
  shows "(result_valid h result \<longrightarrow>
      (\<exists>h'. calculate_flow_rate fa config measurements result h =
         Inr (if configuration_error config measurements \<or> result = None
                   \<or> allocation_fails h 1
              then - 1 else 0, h')))
    \<and> (\<exists>p h'. flowmeter_process fa config measurements h = Inr (p, h')
          \<and> (p = None \<longleftrightarrow>
               configuration_error config measurements \<or> allocation_fails h 2)
          \<and> (p = None \<longrightarrow> objs h' = objs h))"
proof (intro conjI impI)
  assume "result_valid h result"
  with assms show "\<exists>h'. calculate_flow_rate fa config measurements result h =
         Inr (if configuration_error config measurements \<or> result = None
                   \<or> allocation_fails h 1
              then - 1 else 0, h')"
    by (rule calculate_flow_rate_outcome)
next
  from flowmeter_process_outcome [OF assms, of fa h] obtain p h' where
    o: "flowmeter_process fa config measurements h = Inr (p, h')"
      "p = None \<longleftrightarrow> configuration_error config measurements \<or> allocation_fails h 2"
    by blast
  have "p = None \<longrightarrow> objs h' = objs h"
    using o(1) flowmeter_process_failure by blast
  with o show "\<exists>p h'. flowmeter_process fa config measurements h = Inr (p, h')
          \<and> (p = None \<longleftrightarrow>
               configuration_error config measurements \<or> allocation_fails h 2)
          \<and> (p = None \<longrightarrow> objs h' = objs h)"
    by blast
qed

theorem failure_signalled_exactly_when_witness:
  "sequences_hold (Some two_path_config) (Some two_path_measurements)
   \<and> result_valid caller_heap (Some 1)
   \<and> (\<exists>h'. calculate_flow_rate real_arith (Some two_path_config) (Some two_path_measurements)
          (Some 1) caller_heap = Inr (0, h'))
   \<and> (\<exists>h'. calculate_flow_rate real_arith (Some (two_path_config \<lparr> num_paths := 0 \<rparr>))
          (Some two_path_measurements) (Some 1) caller_heap = Inr (- 1, h'))
   \<and> (\<exists>r h'. flowmeter_process real_arith (Some two_path_config)
          (Some two_path_measurements) caller_heap = Inr (Some r, h'))
   \<and> (\<exists>h'. flowmeter_process real_arith (Some two_path_config)
          (Some two_path_measurements) tight_heap = Inr (None, h') \<and> objs h' = [])"
  using failure_signalled_exactly_when [of "Some two_path_config" "Some two_path_measurements"
      caller_heap "Some 1" real_arith]
    failure_signalled_exactly_when [of "Some (two_path_config \<lparr> num_paths := 0 \<rparr>)"
      "Some two_path_measurements" caller_heap "Some 1" real_arith]
    failure_signalled_exactly_when [of "Some two_path_config" "Some two_path_measurements"
      tight_heap "Some 1" real_arith]
  by (auto simp: sequences_hold_def result_valid_def configuration_error_def
      allocation_fails_def two_path_config_def two_paths_def two_path_measurements_def
      caller_heap_def tight_heap_def)




text \<open>
  C5, as stated, fails. In exact arithmetic the scenario gives the path velocity
  \<open>-1023000000/91078639\<close>, about \<open>-11.232\<close>, and a negative flow: the upstream time
  of the scenario is the shorter one. In binary64 arithmetic the velocity and the flow
  are finite and negative as well. Neither is within 1% of \<open>2.0\<close> or of \<open>0.015708\<close>.
\<close>

theorem scenario_not_two_metres_per_second:
  "calculate_flow_rate real_arith (Some scenario_config) (Some scenario_measurements) (Some 1)
     caller_heap = Inr (0, scenario_heap)
   \<and> read_result scenario_heap 1 = Some ([Val scenario_velocity], Val scenario_flow)
   \<and> \<not> \<bar>scenario_velocity - 2\<bar> \<le> 2 / 100
   \<and> \<not> \<bar>scenario_flow - 15708 / 10 ^ 6\<bar> \<le> 15708 / 10 ^ 8
   \<and> calculate_flow_rate binary64_arith (Some scenario_config_binary64)
       (Some [scenario_measurement_binary64]) (Some 1) caller_heap
     = Inr (0, scenario_heap_binary64)
   \<and> read_result scenario_heap_binary64 1
     = Some ([Val scenario_velocity_binary64], Val scenario_flow_binary64)
   \<and> is_finite scenario_velocity_binary64
   \<and> is_finite scenario_flow_binary64
   \<and> \<not> \<bar>real_of_double scenario_velocity_binary64 - 2\<bar> \<le> 2 / 100
   \<and> \<not> \<bar>real_of_double scenario_flow_binary64 - 15708 / 10 ^ 6\<bar> \<le> 15708 / 10 ^ 8"
proof -
  have "scenario_velocity < 0"
    by (simp add: scenario_velocity_def)
  moreover have "scenario_flow < 0"
    using pi_gt_zero by (simp add: scenario_flow_def scenario_velocity_def)
  moreover have "is_finite scenario_velocity_binary64"
    and "real_of_double scenario_velocity_binary64 < 0"
    using double_within_negative [OF scenario_velocity_binary64_within] by simp_all
  moreover have "is_finite scenario_flow_binary64"
    and "real_of_double scenario_flow_binary64 < 0"
    using double_within_negative [OF scenario_flow_binary64_within] by simp_all
  moreover have "read_result scenario_heap_binary64 1
     = Some ([Val scenario_velocity_binary64], Val scenario_flow_binary64)"
    by (simp add: read_result_def scenario_heap_binary64_def)
  ultimately show ?thesis
    using scenario_run scenario_run_binary64
    by (simp add: read_result_def scenario_heap_def)
qed

text \<open>
  C5, amended. For the scenario, \<^verbatim>\<open>calculate_flow_rate\<close> returns 0 and, in exact
  arithmetic as in binary64 arithmetic, the path velocity is within 1% of \<open>-11.232\<close>
  and the volumetric flow is within 1% of \<open>-0.088216\<close>.
\<close>

theorem scenario_result:
  "calculate_flow_rate real_arith (Some scenario_config) (Some scenario_measurements) (Some 1)
     caller_heap = Inr (0, scenario_heap)
   \<and> read_result scenario_heap 1 = Some ([Val scenario_velocity], Val scenario_flow)
   \<and> \<bar>scenario_velocity - (- (11232 / 1000))\<bar> \<le> 11232 / 100000
   \<and> \<bar>scenario_flow - (- (88216 / 10 ^ 6))\<bar> \<le> 88216 / 10 ^ 8
   \<and> calculate_flow_rate binary64_arith (Some scenario_config_binary64)
       (Some [scenario_measurement_binary64]) (Some 1) caller_heap
     = Inr (0, scenario_heap_binary64)
   \<and> read_result scenario_heap_binary64 1
     = Some ([Val scenario_velocity_binary64], Val scenario_flow_binary64)
   \<and> is_finite scenario_velocity_binary64
   \<and> is_finite scenario_flow_binary64
   \<and> \<bar>real_of_double scenario_velocity_binary64 - (- (11232 / 1000))\<bar> \<le> 11232 / 100000
   \<and> \<bar>real_of_double scenario_flow_binary64 - (- (88216 / 10 ^ 6))\<bar> \<le> 88216 / 10 ^ 8"
proof -
  have v: "\<bar>scenario_velocity - (- (11232 / 1000))\<bar> \<le> 11232 / 100000"
    by (simp add: scenario_velocity_def)
  have q: "scenario_flow = - (pi * (1023000000 / (400 * 91078639)))"
    by (simp add: scenario_flow_def scenario_velocity_def)
  have lo: "- (3147 / 1000 * (1023000000 / (400 * 91078639))) \<le> scenario_flow"
    unfolding q using pi_bounds by simp
  have hi: "scenario_flow \<le> - (3138 / 1000 * (1023000000 / (400 * 91078639)))"
    unfolding q using pi_bounds by simp
  have f: "\<bar>scenario_flow - (- (88216 / 10 ^ 6))\<bar> \<le> 88216 / 10 ^ 8"
    using lo hi unfolding abs_le_iff by simp
  have fv: "is_finite scenario_velocity_binary64"
    and vb: "\<bar>real_of_double scenario_velocity_binary64 - (- (11232 / 1000))\<bar>
      \<le> 11232 / 100000"
    using double_within_negative [OF scenario_velocity_binary64_within]
    unfolding abs_le_iff by simp_all
  have ff: "is_finite scenario_flow_binary64"
    and fb: "\<bar>real_of_double scenario_flow_binary64 - (- (88216 / 10 ^ 6))\<bar> \<le> 88216 / 10 ^ 8"
    using double_within_negative [OF scenario_flow_binary64_within]
    unfolding abs_le_iff by simp_all
  have rb: "read_result scenario_heap_binary64 1
     = Some ([Val scenario_velocity_binary64], Val scenario_flow_binary64)"
    by (simp add: read_result_def scenario_heap_binary64_def)
  have r: "read_result scenario_heap 1 = Some ([Val scenario_velocity], Val scenario_flow)"
    by (simp add: read_result_def scenario_heap_def)
  show ?thesis
    using v f fv ff vb fb r rb scenario_run scenario_run_binary64 by (simp only: simp_thms)
qed

text \<open>
  C6, as stated, fails on \<^verbatim>\<open>double\<close> values. In binary64 arithmetic, take a pipe of
  diameter 2 with one path of weight 1, of length 44, at the angle \<^verbatim>\<open>M_PI / 2\<close>, whose
  sine rounds to 1. The transit times 2 and 1 give the path velocity 11 and the flow
  \<open>9727076909039104 / 2^48\<close> (11 times \<^verbatim>\<open>M_PI\<close>, rounded). The transit times 2 and
  0.5 give the path velocity 33, which is 3 times 11, and the flow
  \<open>29181230727117316 / 2^48\<close> (33 times \<^verbatim>\<open>M_PI\<close>, rounded), which is not 3 times the
  first flow, \<open>29181230727117312 / 2^48\<close>, whether that product is taken exactly or in
  binary64.
\<close>

theorem volumetric_flow_not_linear_in_binary64:
  "calculate_flow_rate binary64_arith (Some binary64_config) (Some [slow_measurement]) (Some 1)
     caller_heap = Inr (0, slow_heap)
   \<and> read_result slow_heap 1
     = Some ([Val (Finite False 11)], Val (Finite False (9727076909039104 / 2 ^ 48)))
   \<and> calculate_flow_rate binary64_arith (Some binary64_config) (Some [fast_measurement]) (Some 1)
     caller_heap = Inr (0, fast_heap)
   \<and> read_result fast_heap 1
     = Some ([Val (Finite False 33)], Val (Finite False (29181230727117316 / 2 ^ 48)))
   \<and> d_mul binary64_arith (Finite False 3) (Finite False 11) = Finite False 33
   \<and> d_mul binary64_arith (Finite False 3) (Finite False (9727076909039104 / 2 ^ 48))
     = Finite False (29181230727117312 / 2 ^ 48)
   \<and> \<not> d_eq binary64_arith (Finite False (29181230727117316 / 2 ^ 48))
       (d_mul binary64_arith (Finite False 3) (Finite False (9727076909039104 / 2 ^ 48)))
   \<and> 29181230727117316 / 2 ^ 48 \<noteq> (3 * (9727076909039104 / 2 ^ 48) :: real)"
proof -
  have k: "d_mul binary64_arith (Finite False 3) (Finite False 11) = Finite False 33"
    by (simp add: binary64_ops round_double_values)
  have "3 * (9727076909039104 / 281474976710656)
      = (29181230727117312 / 281474976710656 :: real)"
    by simp
  then have "d_mul binary64_arith (Finite False 3)
        (Finite False (9727076909039104 / 281474976710656))
      = Finite False (29181230727117312 / 281474976710656)"
    by (simp only: binary64_ops double_mul.simps round_double_values simp_thms)
  moreover have "(2 ^ 48 :: real) = 281474976710656"
    by simp
  ultimately have q: "d_mul binary64_arith (Finite False 3)
        (Finite False (9727076909039104 / 2 ^ 48))
      = Finite False (29181230727117312 / 2 ^ 48)"
    by (simp only:)
  have r: "read_result slow_heap 1
     = Some ([Val (Finite False 11)], Val (Finite False (9727076909039104 / 2 ^ 48)))"
    "read_result fast_heap 1
     = Some ([Val (Finite False 33)], Val (Finite False (29181230727117316 / 2 ^ 48)))"
    by (simp_all add: read_result_def slow_heap_def fast_heap_def)
  show ?thesis
    by (simp only: slow_run fast_run r k q) (simp add: binary64_ops with_sign_def)
qed

text \<open>
  C6, amended. In exact arithmetic, scaling every velocity by \<open>k\<close> with the diameter and
  the weights fixed scales the flow by exactly \<open>k\<close>: for the flow as a function of the
  velocity vector, and for two successful runs of \<^verbatim>\<open>calculate_flow_rate\<close> on one
  configuration whose stored velocities are \<open>vs\<close> and \<open>k\<close> times \<open>vs\<close>. In binary64
  arithmetic, for two velocity vectors of the same paths whose flows are both finite, the
  second flow differs from \<open>k\<close> times the first by no more than the rounding errors of
  the two integrations, \<open>flow_rounding_bound\<close> for the weighted velocities of the second
  vector plus \<open>\<bar>k\<bar>\<close> times \<open>flow_rounding_bound\<close> for those of the first, and the area
  times the weighted distances of the second velocities from \<open>k\<close> times the first, which
  are 0 when the second vector is \<open>k\<close> times the first.
\<close>

theorem volumetric_flow_linear_up_to_rounding:
  "flow_of_velocities real_arith d ps (map ((*) k) vs)
     = k * flow_of_velocities real_arith d ps vs
   \<and> (calculate_flow_rate real_arith (Some c) (Some ms1) (Some r1) h1 = Inr (0, h1')
        \<and> calculate_flow_rate real_arith (Some c) (Some ms2) (Some r2) h2 = Inr (0, h2')
        \<and> read_result h1' r1 = Some (map Val vs1, Val q1)
        \<and> read_result h2' r2 = Some (map Val (map ((*) k) vs1), Val q2)
      \<longrightarrow> q2 = k * q1)
   \<and> (length ws2 = length ws1
        \<and> is_finite (flow_of_velocities binary64_arith dd pd ws1)
        \<and> is_finite (flow_of_velocities binary64_arith dd pd ws2)
      \<longrightarrow> \<bar>real_of_double (flow_of_velocities binary64_arith dd pd ws2)
              - k * real_of_double (flow_of_velocities binary64_arith dd pd ws1)\<bar>
          \<le> flow_rounding_bound (length ws1) \<bar>real_of_double (spec_area binary64_arith dd)\<bar>
                (\<Sum>i<length ws1. \<bar>real_of_double (weight (pd ! i))
                                  * real_of_double (ws2 ! i)\<bar>)
            + \<bar>k\<bar> * flow_rounding_bound (length ws1)
                \<bar>real_of_double (spec_area binary64_arith dd)\<bar>
                (\<Sum>i<length ws1. \<bar>real_of_double (weight (pd ! i))
                                  * real_of_double (ws1 ! i)\<bar>)
            + \<bar>real_of_double (spec_area binary64_arith dd)\<bar>
              * (\<Sum>i<length ws1. \<bar>real_of_double (weight (pd ! i))
                   * (real_of_double (ws2 ! i) - k * real_of_double (ws1 ! i))\<bar>))
   \<and> (calculate_flow_rate binary64_arith (Some cd) (Some md1) (Some a1) g1 = Inr (0, g1')
        \<and> calculate_flow_rate binary64_arith (Some cd) (Some md2) (Some a2) g2 = Inr (0, g2')
        \<and> paths cd = Some pc
        \<and> read_result g1' a1 = Some (map Val us1, Val f1)
        \<and> read_result g2' a2 = Some (map Val us2, Val f2)
        \<and> is_finite f1 \<and> is_finite f2
      \<longrightarrow> \<bar>real_of_double f2 - k * real_of_double f1\<bar>
          \<le> flow_rounding_bound (length us1)
                \<bar>real_of_double (spec_area binary64_arith (pipe_diameter cd))\<bar>
                (\<Sum>i<length us1. \<bar>real_of_double (weight (pc ! i))
                                  * real_of_double (us2 ! i)\<bar>)
            + \<bar>k\<bar> * flow_rounding_bound (length us1)
                \<bar>real_of_double (spec_area binary64_arith (pipe_diameter cd))\<bar>
                (\<Sum>i<length us1. \<bar>real_of_double (weight (pc ! i))
                                  * real_of_double (us1 ! i)\<bar>)
            + \<bar>real_of_double (spec_area binary64_arith (pipe_diameter cd))\<bar>
              * (\<Sum>i<length us1. \<bar>real_of_double (weight (pc ! i))
                   * (real_of_double (us2 ! i) - k * real_of_double (us1 ! i))\<bar>))"
proof (intro conjI impI)
  show "flow_of_velocities real_arith d ps (map ((*) k) vs)
     = k * flow_of_velocities real_arith d ps vs"
    by (rule flow_of_velocities_scale)
next
  assume a: "calculate_flow_rate real_arith (Some c) (Some ms1) (Some r1) h1 = Inr (0, h1')
        \<and> calculate_flow_rate real_arith (Some c) (Some ms2) (Some r2) h2 = Inr (0, h2')
        \<and> read_result h1' r1 = Some (map Val vs1, Val q1)
        \<and> read_result h2' r2 = Some (map Val (map ((*) k) vs1), Val q2)"
  then obtain ps' where ps': "paths c = Some ps'"
    using calculate_flow_rate_zeroD [of real_arith "Some c" "Some ms1" "Some r1" h1 h1']
    by auto
  from a have c1: "calculate_flow_rate real_arith (Some c) (Some ms1) (Some r1) h1 = Inr (0, h1')"
    and c2: "calculate_flow_rate real_arith (Some c) (Some ms2) (Some r2) h2 = Inr (0, h2')"
    and s1: "read_result h1' r1 = Some (map Val vs1, Val q1)"
    and s2: "read_result h2' r2 = Some (map Val (map ((*) k) vs1), Val q2)"
    by blast+
  have 1: "q1 = flow_of_velocities real_arith (pipe_diameter c) ps' vs1"
    using stored_velocities_and_flow [OF c1 ps' s1] by blast
  have 2: "q2 = flow_of_velocities real_arith (pipe_diameter c) ps' (map ((*) k) vs1)"
    using stored_velocities_and_flow [OF c2 ps' s2] by blast
  show "q2 = k * q1"
    unfolding 1 2 by (rule flow_of_velocities_scale)
next
  assume "length ws2 = length ws1
        \<and> is_finite (flow_of_velocities binary64_arith dd pd ws1)
        \<and> is_finite (flow_of_velocities binary64_arith dd pd ws2)"
  then have "length ws2 = length ws1"
    and "is_finite (flow_of_velocities binary64_arith dd pd ws1)"
    and "is_finite (flow_of_velocities binary64_arith dd pd ws2)"
    by blast+
  then show "\<bar>real_of_double (flow_of_velocities binary64_arith dd pd ws2)
              - k * real_of_double (flow_of_velocities binary64_arith dd pd ws1)\<bar>
          \<le> flow_rounding_bound (length ws1) \<bar>real_of_double (spec_area binary64_arith dd)\<bar>
                (\<Sum>i<length ws1. \<bar>real_of_double (weight (pd ! i))
                                  * real_of_double (ws2 ! i)\<bar>)
            + \<bar>k\<bar> * flow_rounding_bound (length ws1)
                \<bar>real_of_double (spec_area binary64_arith dd)\<bar>
                (\<Sum>i<length ws1. \<bar>real_of_double (weight (pd ! i))
                                  * real_of_double (ws1 ! i)\<bar>)
            + \<bar>real_of_double (spec_area binary64_arith dd)\<bar>
              * (\<Sum>i<length ws1. \<bar>real_of_double (weight (pd ! i))
                   * (real_of_double (ws2 ! i) - k * real_of_double (ws1 ! i))\<bar>)"
    by (rule flow_of_velocities_scale_binary64)
next
  assume "calculate_flow_rate binary64_arith (Some cd) (Some md1) (Some a1) g1 = Inr (0, g1')
        \<and> calculate_flow_rate binary64_arith (Some cd) (Some md2) (Some a2) g2 = Inr (0, g2')
        \<and> paths cd = Some pc
        \<and> read_result g1' a1 = Some (map Val us1, Val f1)
        \<and> read_result g2' a2 = Some (map Val us2, Val f2)
        \<and> is_finite f1 \<and> is_finite f2"
  then have "calculate_flow_rate binary64_arith (Some cd) (Some md1) (Some a1) g1 = Inr (0, g1')"
    and "calculate_flow_rate binary64_arith (Some cd) (Some md2) (Some a2) g2 = Inr (0, g2')"
    and "paths cd = Some pc"
    and "read_result g1' a1 = Some (map Val us1, Val f1)"
    and "read_result g2' a2 = Some (map Val us2, Val f2)"
    and "is_finite f1" and "is_finite f2"
    by blast+
  then show "\<bar>real_of_double f2 - k * real_of_double f1\<bar>
          \<le> flow_rounding_bound (length us1)
                \<bar>real_of_double (spec_area binary64_arith (pipe_diameter cd))\<bar>
                (\<Sum>i<length us1. \<bar>real_of_double (weight (pc ! i))
                                  * real_of_double (us2 ! i)\<bar>)
            + \<bar>k\<bar> * flow_rounding_bound (length us1)
                \<bar>real_of_double (spec_area binary64_arith (pipe_diameter cd))\<bar>
                (\<Sum>i<length us1. \<bar>real_of_double (weight (pc ! i))
                                  * real_of_double (us1 ! i)\<bar>)
            + \<bar>real_of_double (spec_area binary64_arith (pipe_diameter cd))\<bar>
              * (\<Sum>i<length us1. \<bar>real_of_double (weight (pc ! i))
                   * (real_of_double (us2 ! i) - k * real_of_double (us1 ! i))\<bar>)"
    by (rule runs_scale_binary64)
qed

theorem volumetric_flow_linear_up_to_rounding_witness:
  "calculate_flow_rate real_arith (Some two_path_config) (Some two_path_measurements) (Some 1)
     caller_heap = Inr (0, finished_heap)
   \<and> calculate_flow_rate real_arith (Some two_path_config) (Some tripled_measurements) (Some 1)
     caller_heap = Inr (0, tripled_heap)
   \<and> read_result finished_heap 1 = Some (map Val [1, - 1], Val (pi / 2))
   \<and> read_result tripled_heap 1 = Some (map Val (map ((*) 3) [1, - 1]), Val (3 * (pi / 2)))
   \<and> calculate_flow_rate binary64_arith (Some binary64_config) (Some [slow_measurement])
       (Some 1) caller_heap = Inr (0, slow_heap)
   \<and> calculate_flow_rate binary64_arith (Some binary64_config) (Some [fast_measurement])
       (Some 1) caller_heap = Inr (0, fast_heap)
   \<and> read_result slow_heap 1
     = Some (map Val [Finite False 11], Val (Finite False (9727076909039104 / 2 ^ 48)))
   \<and> read_result fast_heap 1
     = Some (map Val [Finite False 33], Val (Finite False (29181230727117316 / 2 ^ 48)))
   \<and> flow_of_velocities binary64_arith (Finite False 2) [unit_weight_path] [Finite False 11]
     = Finite False (9727076909039104 / 2 ^ 48)
   \<and> flow_of_velocities binary64_arith (Finite False 2) [unit_weight_path] [Finite False 33]
     = Finite False (29181230727117316 / 2 ^ 48)
   \<and> \<bar>29181230727117316 / 2 ^ 48 - 3 * (9727076909039104 / 2 ^ 48)\<bar>
     \<le> flow_rounding_bound 1 (884279719003555 / 2 ^ 48) 33
       + 3 * flow_rounding_bound 1 (884279719003555 / 2 ^ 48) 11
   \<and> flow_rounding_bound 1 (884279719003555 / 2 ^ 48) 33
       + 3 * flow_rounding_bound 1 (884279719003555 / 2 ^ 48) 11 \<le> 1 / 10 ^ 13"
proof -
  note t = volumetric_flow_linear_up_to_rounding [where c = two_path_config
      and ?ms1.0 = two_path_measurements and ?r1.0 = 1 and ?h1.0 = caller_heap
      and ?h1' = finished_heap and ?ms2.0 = tripled_measurements and ?r2.0 = 1
      and ?h2.0 = caller_heap and ?h2' = tripled_heap and ?vs1.0 = "[1, - 1]"
      and ?q1.0 = "pi / 2" and k = 3 and ?q2.0 = "3 * (pi / 2)"
      and dd = "Finite False 2" and pd = "[unit_weight_path]"
      and ?ws1.0 = "[Finite False 11]" and ?ws2.0 = "[Finite False 33]"
      and cd = binary64_config and ?md1.0 = "[slow_measurement]" and ?a1.0 = 1
      and ?g1.0 = caller_heap and ?g1' = slow_heap and ?md2.0 = "[fast_measurement]"
      and ?a2.0 = 1 and ?g2.0 = caller_heap and ?g2' = fast_heap
      and pc = "[unit_weight_path]" and ?us1.0 = "[Finite False 11]"
      and ?us2.0 = "[Finite False 33]"
      and ?f1.0 = "Finite False (9727076909039104 / 2 ^ 48)"
      and ?f2.0 = "Finite False (29181230727117316 / 2 ^ 48)"]
  have e: "read_result finished_heap 1 = Some (map Val [1, - 1], Val (pi / 2))"
    "read_result tripled_heap 1 = Some (map Val (map ((*) 3) [1, - 1]), Val (3 * (pi / 2)))"
    by (simp_all add: read_result_def finished_heap_def tripled_heap_def)
  have b: "read_result slow_heap 1
     = Some (map Val [Finite False 11], Val (Finite False (9727076909039104 / 2 ^ 48)))"
    "read_result fast_heap 1
     = Some (map Val [Finite False 33], Val (Finite False (29181230727117316 / 2 ^ 48)))"
    by (simp_all add: read_result_def slow_heap_def fast_heap_def)
  have p: "paths binary64_config = Some [unit_weight_path]"
    "pipe_diameter binary64_config = Finite False 2"
    "weight unit_weight_path = Finite False 1"
    by (simp_all add: binary64_config_def unit_weight_path_def)
  have a: "spec_area binary64_arith (Finite False 2) = Finite False (884279719003555 / 2 ^ 48)"
    using binary64_area by simp
  from t have "\<bar>real_of_double (Finite False (29181230727117316 / 2 ^ 48))
        - 3 * real_of_double (Finite False (9727076909039104 / 2 ^ 48))\<bar>
      \<le> flow_rounding_bound (length [Finite False 11 :: double])
            \<bar>real_of_double (spec_area binary64_arith (pipe_diameter binary64_config))\<bar>
            (\<Sum>i<length [Finite False 11 :: double].
                \<bar>real_of_double (weight ([unit_weight_path] ! i))
                 * real_of_double ([Finite False 33] ! i)\<bar>)
        + \<bar>3\<bar> * flow_rounding_bound (length [Finite False 11 :: double])
            \<bar>real_of_double (spec_area binary64_arith (pipe_diameter binary64_config))\<bar>
            (\<Sum>i<length [Finite False 11 :: double].
                \<bar>real_of_double (weight ([unit_weight_path] ! i))
                 * real_of_double ([Finite False 11] ! i)\<bar>)
        + \<bar>real_of_double (spec_area binary64_arith (pipe_diameter binary64_config))\<bar>
          * (\<Sum>i<length [Finite False 11 :: double].
                \<bar>real_of_double (weight ([unit_weight_path] ! i))
                 * (real_of_double ([Finite False 33] ! i)
                    - 3 * real_of_double ([Finite False 11] ! i))\<bar>)"
    using slow_run fast_run b p(1) by (simp add: with_sign_def)
  then have "\<bar>29181230727117316 / 2 ^ 48 - 3 * (9727076909039104 / 2 ^ 48)\<bar>
     \<le> flow_rounding_bound 1 (884279719003555 / 2 ^ 48) 33
       + 3 * flow_rounding_bound 1 (884279719003555 / 2 ^ 48) 11"
    by (simp add: p a with_sign_def)
  moreover have "flow_rounding_bound 1 (884279719003555 / 2 ^ 48) 33
       + 3 * flow_rounding_bound 1 (884279719003555 / 2 ^ 48) 11 \<le> 1 / 10 ^ 13"
    by (simp add: flow_rounding_bound_def unit_roundoff_def underflow_unit_def
        power3_eq_cube power2_eq_square)
  ultimately show ?thesis
    using two_path_run tripled_run slow_run fast_run e b slow_fast_flows
    by (simp add: with_sign_def)
qed

text \<open>
  C7. \<^verbatim>\<open>flowmeter_result_free\<close> leaves the heap as it is when the result reference is
  absent. Given a result whose \<^verbatim>\<open>path_velocities\<close> points to velocity storage, it
  frees that storage and the aggregate: both addresses are gone from the heap and no
  other object is touched. Given a result whose \<^verbatim>\<open>path_velocities\<close> is \<^verbatim>\<open>NULL\<close>, it
  frees the aggregate.
\<close>

theorem flowmeter_result_free_releases:
  "flowmeter_result_free h None = Inr h
   \<and> (map_of (objs h) r = Some (Result res) \<and> path_velocities res = Val (Some a)
        \<and> map_of (objs h) a = Some (Doubles vs) \<longrightarrow>
      flowmeter_result_free h (Some r)
        = Inr (h\<lparr>objs := AList.delete r (AList.delete a (objs h))\<rparr>)
      \<and> map_of (AList.delete r (AList.delete a (objs h))) r = None
      \<and> map_of (AList.delete r (AList.delete a (objs h))) a = None)
   \<and> (map_of (objs h) r = Some (Result res) \<and> path_velocities res = Val None \<longrightarrow>
      flowmeter_result_free h (Some r) = Inr (h\<lparr>objs := AList.delete r (objs h)\<rparr>))"
proof (intro conjI impI)
  show "flowmeter_result_free h None = Inr h"
    by (simp add: flowmeter_result_free_def)
next
  assume a: "map_of (objs h) r = Some (Result res) \<and> path_velocities res = Val (Some a)
        \<and> map_of (objs h) a = Some (Doubles vs)"
  then have ne: "r \<noteq> a" by auto
  then show "flowmeter_result_free h (Some r)
        = Inr (h\<lparr>objs := AList.delete r (AList.delete a (objs h))\<rparr>)"
    using a by (simp add: flowmeter_result_free_def free_def AList.delete_conv')
  show "map_of (AList.delete r (AList.delete a (objs h))) r = None"
    by (simp add: AList.delete_conv')
  show "map_of (AList.delete r (AList.delete a (objs h))) a = None"
    by (simp add: AList.delete_conv')
next
  assume "map_of (objs h) r = Some (Result res) \<and> path_velocities res = Val None"
  then show "flowmeter_result_free h (Some r) = Inr (h\<lparr>objs := AList.delete r (objs h)\<rparr>)"
    by (simp add: flowmeter_result_free_def free_def)
qed

theorem flowmeter_result_free_releases_witness:
  "flowmeter_result_free finished_heap None = Inr finished_heap
   \<and> flowmeter_result_free finished_heap (Some 1) = Inr \<lparr> objs = [], malloc_script = [] \<rparr>
   \<and> flowmeter_result_free
        \<lparr> objs = [(1, Result \<lparr> path_velocities = Val None, volumetric_flow = Val (0::real) \<rparr>)],
          malloc_script = [] \<rparr> (Some 1)
       = Inr \<lparr> objs = [], malloc_script = [] \<rparr>"
  using flowmeter_result_free_releases [of finished_heap 1
      "\<lparr> path_velocities = Val (Some 2), volumetric_flow = Val (pi / 2) \<rparr>" 2
      "[Val 1, Val (- 1)]"]
    flowmeter_result_free_releases [of
      "\<lparr> objs = [(1, Result \<lparr> path_velocities = Val None, volumetric_flow = Val (0::real) \<rparr>)],
         malloc_script = [] \<rparr>" 1
      "\<lparr> path_velocities = Val None, volumetric_flow = Val 0 \<rparr>"]
  by (simp add: finished_heap_def)

text \<open>
  C8. When \<^verbatim>\<open>flowmeter_process\<close> has allocated the result aggregate and
  \<^verbatim>\<open>calculate_flow_rate\<close> then reports failure, \<^verbatim>\<open>flowmeter_process\<close> returns \<^verbatim>\<open>NULL\<close>
  and the live objects of the heap are those there were before the call: nothing it
  allocated is left.
\<close>

theorem flowmeter_process_releases_on_failure:
  assumes "config \<noteq> None" and "measurements \<noteq> None"
    and "malloc h (Result \<lparr>path_velocities = Indeterminate, volumetric_flow = Indeterminate\<rparr>)
          = (Some r, h1)"
    and "calculate_flow_rate fa config measurements (Some r) h1 = Inr (rc, h2)"
    and "rc \<noteq> 0"
  shows "\<exists>h3. flowmeter_process fa config measurements h = Inr (None, h3)
    \<and> objs h3 = objs h"
  using assms by (rule flowmeter_process_integration_fails)

theorem flowmeter_process_releases_on_failure_witness:
  "malloc tight_heap (Result \<lparr>path_velocities = Indeterminate, volumetric_flow = Indeterminate\<rparr>)
     = (Some 1, \<lparr> objs = [(1, Result \<lparr>path_velocities = Indeterminate,
                                          volumetric_flow = Indeterminate\<rparr>)],
                  malloc_script = [False] \<rparr>)
   \<and> calculate_flow_rate real_arith (Some two_path_config) (Some two_path_measurements) (Some 1)
       \<lparr> objs = [(1, Result \<lparr>path_velocities = Indeterminate,
                                volumetric_flow = Indeterminate\<rparr>)],
         malloc_script = [False] \<rparr>
     = Inr (- 1, \<lparr> objs = [(1, Result \<lparr>path_velocities = Val None,
                                          volumetric_flow = Indeterminate\<rparr>)],
                  malloc_script = [] \<rparr>)
   \<and> (\<exists>h3. flowmeter_process real_arith (Some two_path_config) (Some two_path_measurements)
            tight_heap = Inr (None, h3) \<and> objs h3 = [])"
proof -
  have m: "malloc tight_heap
      (Result \<lparr>path_velocities = Indeterminate, volumetric_flow = Indeterminate\<rparr>)
     = (Some 1, \<lparr> objs = [(1, Result \<lparr>path_velocities = Indeterminate,
                                          volumetric_flow = Indeterminate\<rparr>)],
                  malloc_script = [False] \<rparr>)"
    by (simp add: tight_heap_def malloc_def alloc_def malloc_succeeds_def fresh_addr_def Let_def)
  have c: "calculate_flow_rate real_arith (Some two_path_config) (Some two_path_measurements)
       (Some 1)
       \<lparr> objs = [(1, Result \<lparr>path_velocities = Indeterminate,
                                volumetric_flow = Indeterminate\<rparr>)],
         malloc_script = [False] \<rparr>
     = Inr (- 1, \<lparr> objs = [(1, Result \<lparr>path_velocities = Val None,
                                          volumetric_flow = Indeterminate\<rparr>)],
                  malloc_script = [] \<rparr>)"
    by (simp add: calculate_flow_rate_def two_path_config_def two_paths_def malloc_def
        malloc_succeeds_def write_result_def Let_def)
  show ?thesis
    using m c flowmeter_process_releases_on_failure [OF _ _ m c]
    by (simp add: tight_heap_def)
qed

text \<open>
  C9. \<^verbatim>\<open>calculate_flow_rate\<close> returns \<open>-1\<close> when the reference to the output result is
  absent, whatever the configuration and the measurements are, and computes nothing:
  the heap is the one it was given (no allocation, no write).
\<close>

theorem calculate_flow_rate_absent_result:
  "calculate_flow_rate fa config measurements None h = Inr (- 1, h)"
  by (simp add: calculate_flow_rate_def split: option.splits)

text \<open>
  C10. Two successful runs of \<^verbatim>\<open>calculate_flow_rate\<close> whose configurations have the same
  \<^verbatim>\<open>pipe_diameter\<close> and \<^verbatim>\<open>num_paths\<close> and whose paths and measurements agree on the
  first \<^verbatim>\<open>num_paths\<close> elements give the caller the same path velocities,
  \<^verbatim>\<open>num_paths\<close> of them, and the same \<^verbatim>\<open>volumetric_flow\<close>, whatever the heaps, the
  addresses of the results and the rest of the sequences are. This holds for every
  arithmetic of \<^verbatim>\<open>double\<close> whose operations are functions of their operands.
\<close>

theorem calculate_flow_rate_depends_only_on:
  assumes "pipe_diameter c1 = pipe_diameter c2" and "num_paths c1 = num_paths c2"
    and "paths c1 = Some ps1" and "paths c2 = Some ps2"
    and "take (unat (num_paths c1)) ps1 = take (unat (num_paths c1)) ps2"
    and "take (unat (num_paths c1)) ms1 = take (unat (num_paths c1)) ms2"
    and "calculate_flow_rate fa (Some c1) (Some ms1) (Some r1) h1 = Inr (0, h1')"
    and "calculate_flow_rate fa (Some c2) (Some ms2) (Some r2) h2 = Inr (0, h2')"
  shows "read_result h1' r1 = read_result h2' r2
    \<and> (\<exists>vs q. read_result h1' r1 = Some (map Val vs, Val q)
          \<and> length vs = unat (num_paths c1))"
proof -
  let ?n = "unat (num_paths c1)"
  have v: "spec_velocities fa ps1 ms1 ?n = spec_velocities fa ps2 ms2 ?n"
    using assms(5,6) by (rule spec_velocities_take)
  have w: "spec_weighted_sum fa ps1 vs ?n = spec_weighted_sum fa ps2 vs ?n" for vs
    using assms(5) by (rule spec_weighted_sum_take)
  have "read_result h1' r1 = read_result h2' r2"
    unfolding calculate_flow_rate_reads [OF assms(7) assms(3)]
      calculate_flow_rate_reads [OF assms(8) assms(4)]
    by (simp add: v w assms(1) assms(2) [symmetric])
  moreover have "length (spec_velocities fa ps1 ms1 ?n) = ?n"
    by (simp add: spec_velocities_def)
  ultimately show ?thesis
    using calculate_flow_rate_reads [OF assms(7) assms(3)] by blast
qed

theorem calculate_flow_rate_depends_only_on_witness:
  "calculate_flow_rate real_arith (Some two_path_config) (Some two_path_measurements) (Some 1)
     caller_heap = Inr (0, finished_heap)
   \<and> calculate_flow_rate real_arith (Some listed_config) (Some listed_measurements) (Some 5)
     busy_heap = Inr (0, busy_finished_heap)
   \<and> read_result finished_heap 1 = read_result busy_finished_heap 5
   \<and> read_result finished_heap 1 = Some ([Val 1, Val (- 1)], Val (pi / 2))"
  using calculate_flow_rate_depends_only_on [OF _ _ _ _ _ _ two_path_run listed_run,
      of two_paths listed_paths]
    two_path_run listed_run
  by (simp add: listed_config_def listed_paths_def listed_measurements_def
      two_path_config_def two_paths_def two_path_measurements_def read_result_def
      finished_heap_def)

end
